theory Spec2Isabelle
  imports Main "HOL-Library.Word" "HOL-Library.Sublist"
begin

section \<open>Python values and exceptions\<close>

text \<open>
  The values \<open>otel_tracer.py\<close> handles are arbitrary Python objects (\<open>value: Any\<close>).
  \<open>type(obj)\<close> is read off the constructor: \<open>PStr\<close>, \<open>PInt\<close>, \<open>PFloat\<close> and \<open>PBool\<close> are
  objects whose type is exactly \<open>str\<close>, \<open>int\<close>, \<open>float\<close>, \<open>bool\<close>; \<open>PList\<close> and \<open>PTuple\<close> are
  exactly \<open>list\<close> and \<open>tuple\<close>; \<open>PCyclic xs\<close> is a \<open>list\<close> that contains itself: its items
  are \<open>xs\<close> followed by the list object itself. Everything else (\<open>None\<close>, dicts, instances
  of any other class, including subclasses of the six types above) is \<open>PNone\<close>, \<open>PDict\<close> or \<open>PObject\<close> with its
  class name and fields. A float is kept as its IEEE-754 binary64 bit pattern: the code
  only passes floats on.
\<close>

datatype pyval =
    PStr string
  | PInt int
  | PFloat "64 word"
  | PBool bool
  | PList "pyval list"
  | PTuple "pyval list"
  | PCyclic "pyval list"
  | PNone
  | PDict "(pyval \<times> pyval) list"
  | PObject string "(string \<times> pyval) list"

text \<open>
  Exceptions. \<open>KeyboardInterrupt\<close> and \<open>SystemExit\<close> derive from \<open>BaseException\<close> only, so
  \<open>except Exception\<close> does not catch them; all others derive from \<open>Exception\<close>.
\<close>

datatype py_exc =
    FileNotFoundError
  | FileExistsError
  | NotADirectoryError
  | IsADirectoryError
  | NoSpaceError
  | TypeError
  | ValueError
  | AttributeError
  | RecursionError
  | OtherException string
  | KeyboardInterrupt
  | SystemExit

fun is_Exception :: "py_exc \<Rightarrow> bool" where
  "is_Exception KeyboardInterrupt = False"
| "is_Exception SystemExit = False"
| "is_Exception _ = True"

text \<open>
  The SDK's span, as far as this file reads or writes it.
\<close>

datatype StatusCode = UNSET | OK | ERROR

record span =
  span_name :: string
  attributes :: "string \<rightharpoonup> pyval"
  status :: StatusCode
  ended :: bool

text \<open>
  What \<open>otel_tracer.py\<close> calls and this file does not hold. For the coercion:
  \<open>serialize\<close> of \<open>promptflow._utils.dataclass_serializer\<close>, \<open>json.dumps\<close> and the builtin
  \<open>str\<close> (which runs the object's own \<open>__str__\<close>); each may raise, and what each does is taken
  to depend on its argument only. \<open>stack_room\<close> is the number of nested calls of the coercion
  that the interpreter's recursion limit still allows below the first one. For the spans:
  the SDK span's own \<open>set_attribute\<close> and \<open>set_status\<close>, each giving the span as the call
  leaves it (what the SDK validates, converts, drops or ignores is its own and differs
  between its versions). All are parameters of the model.
\<close>

record py_runtime =
  serialize :: "pyval \<Rightarrow> py_exc + pyval"
  json_dumps :: "pyval \<Rightarrow> py_exc + string"
  py_str :: "pyval \<Rightarrow> py_exc + string"
  stack_room :: nat
  span_set_attribute :: "span \<Rightarrow> string \<Rightarrow> pyval \<Rightarrow> span"
  span_set_status :: "span \<Rightarrow> StatusCode \<Rightarrow> span"

section \<open>Attribute coercion\<close>

text \<open>
  A list comprehension evaluates its elements left to right; the first exception ends it.
\<close>

fun collect :: "(py_exc + 'a) list \<Rightarrow> py_exc + 'a list" where
  "collect [] = Inr []"
| "collect (Inl e # rs) = Inl e"
| "collect (Inr v # rs) = (case collect rs of Inl e \<Rightarrow> Inl e | Inr vs \<Rightarrow> Inr (v # vs))"

text \<open>
  The last branch of \<open>OpenTelemetryTracer._generate_attribute_value\<close>. \<open>obj\<close> is rebound
  to \<open>serialize(obj)\<close> before \<open>json.dumps\<close> runs, so the handler's \<open>str(obj)\<close> sees the
  original object when \<open>serialize\<close> raised and the serialized one when \<open>json.dumps\<close> raised.
\<close>

definition serialize_or_str :: "py_runtime \<Rightarrow> pyval \<Rightarrow> py_exc + pyval" where
  "serialize_or_str rt obj =
     (case serialize rt obj of
        Inl e \<Rightarrow> (if is_Exception e then map_sum id PStr (py_str rt obj) else Inl e)
      | Inr obj' \<Rightarrow>
          (case json_dumps rt obj' of
             Inl e \<Rightarrow> (if is_Exception e then map_sum id PStr (py_str rt obj') else Inl e)
           | Inr s \<Rightarrow> Inr (PStr s)))"

text \<open>
  \<open>coerce_at rt n obj\<close> is the call with room for \<open>n\<close> nested calls below it. The list
  comprehension of the list branch calls the method once per item, outside the \<open>try\<close>; with
  no room left that call raises \<open>RecursionError\<close>.
\<close>

fun coerce_at :: "py_runtime \<Rightarrow> nat \<Rightarrow> pyval \<Rightarrow> py_exc + pyval" where
  "coerce_at rt n (PStr s) = Inr (PStr s)"
| "coerce_at rt n (PInt i) = Inr (PInt i)"
| "coerce_at rt n (PFloat f) = Inr (PFloat f)"
| "coerce_at rt n (PBool b) = Inr (PBool b)"
| "coerce_at rt n (PList xs) =
     (if xs = [] then Inr (PList [])
      else (case n of
              0 \<Rightarrow> Inl RecursionError
            | Suc m \<Rightarrow> map_sum id PList (collect (map (coerce_at rt m) xs))))"
| "coerce_at rt n (PTuple xs) =
     (if xs = [] then Inr (PList [])
      else (case n of
              0 \<Rightarrow> Inl RecursionError
            | Suc m \<Rightarrow> map_sum id PList (collect (map (coerce_at rt m) xs))))"
| "coerce_at rt n (PCyclic xs) =
     (case n of
        0 \<Rightarrow> Inl RecursionError
      | Suc m \<Rightarrow> map_sum id PList (collect (map (coerce_at rt m) (xs @ [PCyclic xs]))))"
| "coerce_at rt n PNone = serialize_or_str rt PNone"
| "coerce_at rt n (PDict kvs) = serialize_or_str rt (PDict kvs)"
| "coerce_at rt n (PObject c fs) = serialize_or_str rt (PObject c fs)"

definition generate_attribute_value :: "py_runtime \<Rightarrow> pyval \<Rightarrow> py_exc + pyval" where
  "generate_attribute_value rt obj = coerce_at rt (stack_room rt) obj"






section \<open>The operating system\<close>

text \<open>
  \<open>FileSpanExporter\<close> calls \<open>os.path.dirname\<close>, \<open>os.path.exists\<close>, \<open>os.makedirs\<close> and
  \<open>open(..., "a")\<close>. The model of the file system is a map from locations to nodes, a
  location being the list of names that leads to it from the root; the root is always a
  directory. The working directory is the root, and there are no symbolic links and no
  permissions. \<open>space\<close> is the number of characters the device still accepts (\<open>None\<close>: no
  limit); \<open>opened\<close> lists the locations that have an open handle.
\<close>

datatype node = Dir | File string

record os_state =
  nodes :: "string list \<rightharpoonup> node"
  space :: "nat option"
  opened :: "string list list"

definition node_at :: "(string list \<rightharpoonup> node) \<Rightarrow> string list \<Rightarrow> node option" where
  "node_at ns loc = (if loc = [] then Some Dir else ns loc)"

fun split_slash :: "string \<Rightarrow> string list" where
  "split_slash [] = [[]]"
| "split_slash (c # cs) =
     (if c = CHR ''/'' then [] # split_slash cs
      else (case split_slash cs of [] \<Rightarrow> [[c]] | x # xs \<Rightarrow> (c # x) # xs))"

fun walk :: "(string list \<rightharpoonup> node) \<Rightarrow> string list \<Rightarrow> string list \<Rightarrow> py_exc + string list" where
  "walk ns cur [] = Inr cur"
| "walk ns cur (c # cs) =
     (case node_at ns cur of
        None \<Rightarrow> Inl FileNotFoundError
      | Some (File t) \<Rightarrow> Inl NotADirectoryError
      | Some Dir \<Rightarrow>
          (if c = [] \<or> c = ''.'' then walk ns cur cs
           else if c = ''..'' then walk ns (butlast cur) cs
           else walk ns (cur @ [c]) cs))"

definition os_stat :: "os_state \<Rightarrow> string \<Rightarrow> py_exc + node" where
  "os_stat s p =
     (if p = [] then Inl FileNotFoundError
      else (case walk (nodes s) [] (split_slash p) of
              Inl e \<Rightarrow> Inl e
            | Inr loc \<Rightarrow> (case node_at (nodes s) loc of
                           None \<Rightarrow> Inl FileNotFoundError
                         | Some n \<Rightarrow> Inr n)))"

definition os_path_exists :: "os_state \<Rightarrow> string \<Rightarrow> bool" where
  "os_path_exists s p = (case os_stat s p of Inl e \<Rightarrow> False | Inr n \<Rightarrow> True)"

definition rstrip_slash :: "string \<Rightarrow> string" where
  "rstrip_slash p = rev (dropWhile (\<lambda>c. c = CHR ''/'') (rev p))"

definition os_path_split :: "string \<Rightarrow> string \<times> string" where
  "os_path_split p =
     (let head = rev (dropWhile (\<lambda>c. c \<noteq> CHR ''/'') (rev p));
          tail = rev (takeWhile (\<lambda>c. c \<noteq> CHR ''/'') (rev p))
      in (if head \<noteq> [] \<and> head \<noteq> replicate (length head) (CHR ''/'')
          then rstrip_slash head else head, tail))"

definition os_path_dirname :: "string \<Rightarrow> string" where
  "os_path_dirname p =
     (let head = rev (dropWhile (\<lambda>c. c \<noteq> CHR ''/'') (rev p))
      in if head \<noteq> [] \<and> head \<noteq> replicate (length head) (CHR ''/'')
         then rstrip_slash head else head)"

definition os_mkdir :: "os_state \<Rightarrow> string \<Rightarrow> py_exc + os_state" where
  "os_mkdir s p =
     (if p = [] then Inl FileNotFoundError
      else
        (let cs = rev (dropWhile (\<lambda>c. c = []) (rev (split_slash p))) in
         if cs = [] then Inl FileExistsError
         else (case walk (nodes s) [] (butlast cs) of
                 Inl e \<Rightarrow> Inl e
               | Inr par \<Rightarrow>
                   (case node_at (nodes s) par of
                      None \<Rightarrow> Inl FileNotFoundError
                    | Some (File t) \<Rightarrow> Inl NotADirectoryError
                    | Some Dir \<Rightarrow>
                        (if last cs = ''.'' \<or> last cs = ''..'' then Inl FileExistsError
                         else (case node_at (nodes s) (par @ [last cs]) of
                                 Some n \<Rightarrow> Inl FileExistsError
                               | None \<Rightarrow> Inr (s\<lparr>nodes := (nodes s)(par @ [last cs] \<mapsto> Dir)\<rparr>)))))))"

definition makedirs_parts :: "string \<Rightarrow> string \<times> string" where
  "makedirs_parts name =
     (let (head, tail) = os_path_split name
      in if tail = [] then os_path_split head else (head, tail))"

definition mkdir_last :: "os_state \<Rightarrow> string \<Rightarrow> os_state \<times> py_exc option" where
  "mkdir_last s name = (case os_mkdir s name of Inl e \<Rightarrow> (s, Some e) | Inr s' \<Rightarrow> (s', None))"

function os_makedirs :: "os_state \<Rightarrow> string \<Rightarrow> os_state \<times> py_exc option" where
  "os_makedirs s name =
     (if fst (makedirs_parts name) \<noteq> [] \<and> snd (makedirs_parts name) \<noteq> [] \<and>
         \<not> os_path_exists s (fst (makedirs_parts name))
      then
        (case os_makedirs s (fst (makedirs_parts name)) of
           (s1, Some e) \<Rightarrow>
             (if e = FileExistsError
              then (if snd (makedirs_parts name) = ''.'' then (s1, None) else mkdir_last s1 name)
              else (s1, Some e))
         | (s1, None) \<Rightarrow>
             (if snd (makedirs_parts name) = ''.'' then (s1, None) else mkdir_last s1 name))
      else mkdir_last s name)"
  by pat_completeness auto
termination
proof (relation "measure (\<lambda>(s, name). length name)")
  show "wf (measure (\<lambda>(s, name). length name))" by simp
next
  fix s :: os_state and name :: string
  assume a: "fst (makedirs_parts name) \<noteq> [] \<and> snd (makedirs_parts name) \<noteq> [] \<and>
         \<not> os_path_exists s (fst (makedirs_parts name))"
  have split_len: "length (fst (os_path_split p)) + length (snd (os_path_split p)) \<le> length p" for p
  proof -
    define h where "h = rev (dropWhile (\<lambda>c. c \<noteq> CHR ''/'') (rev p))"
    define t where "t = rev (takeWhile (\<lambda>c. c \<noteq> CHR ''/'') (rev p))"
    have "length (takeWhile (\<lambda>c. c \<noteq> CHR ''/'') (rev p)) +
          length (dropWhile (\<lambda>c. c \<noteq> CHR ''/'') (rev p)) = length (rev p)"
      by (metis length_append takeWhile_dropWhile_id)
    then have sum: "length h + length t = length p"
      by (simp add: h_def t_def)
    have "length (rstrip_slash h) \<le> length h"
      using length_dropWhile_le [of "\<lambda>c. c = CHR ''/''" "rev h"] by (simp add: rstrip_slash_def)
    moreover have "fst (os_path_split p) = rstrip_slash h \<or> fst (os_path_split p) = h"
      by (simp add: os_path_split_def Let_def h_def)
    ultimately have "length (fst (os_path_split p)) \<le> length h" by auto
    moreover have "snd (os_path_split p) = t"
      by (simp add: os_path_split_def Let_def t_def)
    ultimately show ?thesis using sum by simp
  qed
  have "length (fst (makedirs_parts name)) < length name"
  proof (cases "snd (os_path_split name) = []")
    case True
    then have mp: "makedirs_parts name = os_path_split (fst (os_path_split name))"
      by (simp add: makedirs_parts_def split_beta)
    from a mp have "snd (os_path_split (fst (os_path_split name))) \<noteq> []" by simp
    then have "length (fst (os_path_split (fst (os_path_split name)))) <
               length (fst (os_path_split name))"
      using split_len [of "fst (os_path_split name)"] by (cases "snd (os_path_split (fst (os_path_split name)))") auto
    moreover have "length (fst (os_path_split name)) \<le> length name"
      using split_len [of name] by simp
    ultimately show ?thesis using mp by simp
  next
    case False
    then have mp: "makedirs_parts name = os_path_split name"
      by (simp add: makedirs_parts_def split_beta)
    from False show ?thesis using split_len [of name] mp
      by (cases "snd (os_path_split name)") auto
  qed
  then show "((s, fst (makedirs_parts name)), (s, name)) \<in> measure (\<lambda>(s, name). length name)"
    by simp
qed

declare os_makedirs.simps [simp del]

text \<open>
  \<open>open(name, "a")\<close>: the file is created when it is missing and its directory is there; an
  existing file is opened with its content kept. The handle is the file's location.
\<close>

definition os_open_append :: "os_state \<Rightarrow> string \<Rightarrow> py_exc + (os_state \<times> string list)" where
  "os_open_append s p =
     (if p = [] then Inl FileNotFoundError
      else (case walk (nodes s) [] (split_slash p) of
              Inl e \<Rightarrow> Inl e
            | Inr loc \<Rightarrow>
                (case node_at (nodes s) loc of
                   Some Dir \<Rightarrow> Inl IsADirectoryError
                 | Some (File t) \<Rightarrow> Inr (s\<lparr>opened := loc # opened s\<rparr>, loc)
                 | None \<Rightarrow>
                     (case node_at (nodes s) (butlast loc) of
                        Some Dir \<Rightarrow>
                          Inr (s\<lparr>nodes := (nodes s)(loc \<mapsto> File []), opened := loc # opened s\<rparr>, loc)
                      | Some (File t) \<Rightarrow> Inl NotADirectoryError
                      | None \<Rightarrow> Inl FileNotFoundError))))"

text \<open>
  \<open>file.write(data)\<close> appends. When the device has less room than \<open>data\<close> needs, what fits
  is written and the write raises.
\<close>

definition os_write :: "os_state \<Rightarrow> string list \<Rightarrow> string \<Rightarrow> os_state \<times> py_exc option" where
  "os_write s loc d =
     (case nodes s loc of
        Some (File t) \<Rightarrow>
          (case space s of
             None \<Rightarrow> (s\<lparr>nodes := (nodes s)(loc \<mapsto> File (t @ d))\<rparr>, None)
           | Some b \<Rightarrow>
               (if length d \<le> b
                then (s\<lparr>nodes := (nodes s)(loc \<mapsto> File (t @ d)), space := Some (b - length d)\<rparr>, None)
                else (s\<lparr>nodes := (nodes s)(loc \<mapsto> File (t @ take b d)), space := Some 0\<rparr>,
                      Some NoSpaceError)))
      | Some Dir \<Rightarrow> (s, Some ValueError)
      | None \<Rightarrow> (s, Some ValueError))"

definition os_close :: "os_state \<Rightarrow> string list \<Rightarrow> os_state" where
  "os_close s loc = s\<lparr>opened := remove1 loc (opened s)\<rparr>"

section \<open>FileSpanExporter\<close>

datatype SpanExportResult = SUCCESS | FAILURE

record FileSpanExporter =
  file_name :: string

text \<open>
  \<open>FileSpanExporter.__init__\<close>: the state after the call, and the exception or the object.
  \<open>span.to_json(indent=None)\<close> is the SDK's; it is a parameter of \<open>export\<close>.
\<close>

definition FileSpanExporter_init :: "os_state \<Rightarrow> string \<Rightarrow> os_state \<times> (py_exc + FileSpanExporter)" where
  "FileSpanExporter_init s fname =
     (let directory = os_path_dirname fname in
      if \<not> os_path_exists s directory
      then (case os_makedirs s directory of
              (s', Some e) \<Rightarrow> (s', Inl e)
            | (s', None) \<Rightarrow> (s', Inr \<lparr>file_name = fname\<rparr>))
      else (s, Inr \<lparr>file_name = fname\<rparr>))"

text \<open>The loop of \<open>export\<close>: one \<open>write\<close> per span, ended by the first write that raises.\<close>

fun write_spans :: "(span \<Rightarrow> string) \<Rightarrow> os_state \<Rightarrow> string list \<Rightarrow> span list \<Rightarrow> os_state \<times> py_exc option" where
  "write_spans to_json s h [] = (s, None)"
| "write_spans to_json s h (sp # sps) =
     (case os_write s h (to_json sp @ [CHR 0x0A]) of
        (s', Some e) \<Rightarrow> (s', Some e)
      | (s', None) \<Rightarrow> write_spans to_json s' h sps)"

text \<open>
  \<open>FileSpanExporter.export\<close>. The \<open>with\<close> statement closes the file on both ways out; the
  method has no handler, so what \<open>open\<close> or \<open>write\<close> raises leaves it.
\<close>

definition FileSpanExporter_export ::
  "(span \<Rightarrow> string) \<Rightarrow> os_state \<Rightarrow> FileSpanExporter \<Rightarrow> span list \<Rightarrow> os_state \<times> (py_exc + SpanExportResult)" where
  "FileSpanExporter_export to_json s self spans =
     (case os_open_append s (file_name self) of
        Inl e \<Rightarrow> (s, Inl e)
      | Inr (s1, h) \<Rightarrow>
          (case write_spans to_json s1 h spans of
             (s2, Some e) \<Rightarrow> (os_close s2 h, Inl e)
           | (s2, None) \<Rightarrow> (os_close s2 h, Inr SUCCESS)))"

text \<open>
  What a call of \<open>export\<close> is measured against: the text of a batch, one line per span;
  what a path holds when it names a file; whether \<open>open\<close> succeeds and the device has room
  for the whole batch; how many characters of a text the device takes; and the lines of
  a text, read back.
\<close>

definition records :: "(span \<Rightarrow> string) \<Rightarrow> span list \<Rightarrow> string" where
  "records to_json batch = concat (map (\<lambda>sp. to_json sp @ [CHR 0x0A]) batch)"

definition file_content :: "os_state \<Rightarrow> string \<Rightarrow> string option" where
  "file_content s p = (case os_stat s p of Inr (File c) \<Rightarrow> Some c | _ \<Rightarrow> None)"

definition write_completes :: "(span \<Rightarrow> string) \<Rightarrow> os_state \<Rightarrow> FileSpanExporter \<Rightarrow> span list \<Rightarrow> bool" where
  "write_completes to_json s self batch =
     (case os_open_append s (file_name self) of
        Inl e \<Rightarrow> False
      | Inr h \<Rightarrow> (case space s of None \<Rightarrow> True | Some b \<Rightarrow> length (records to_json batch) \<le> b))"

definition written :: "nat option \<Rightarrow> nat \<Rightarrow> nat" where
  "written sp n = (case sp of None \<Rightarrow> n | Some b \<Rightarrow> min b n)"

fun split_lines :: "string \<Rightarrow> string list" where
  "split_lines [] = []"
| "split_lines (c # cs) =
     (if c = CHR 0x0A then [] # split_lines cs
      else (case split_lines cs of [] \<Rightarrow> [[c]] | l # ls \<Rightarrow> (c # l) # ls))"

section \<open>OpenTelemetryTracer\<close>

text \<open>
  What the class and the SDK hold for one process, seen by one execution context.
  Objects that are shared and mutated live in heaps and are named by their index:
  \<open>tracers\<close> holds every \<open>OpenTelemetryTracer\<close> that \<open>object.__new__\<close> has made,
  \<open>processors\<close> every \<open>BatchSpanProcessor\<close>, \<open>spans\<close> every span. \<open>cls_instance\<close> is the class
  attribute \<open>_instance\<close>; \<open>global_provider\<close> is the SDK's process-wide tracer provider, which
  \<open>trace.set_tracer_provider\<close> sets once and never overrides. \<open>shutdown_calls\<close> records each
  call of a processor's \<open>shutdown\<close>, oldest first, whether or not it raised. \<open>current\<close> is
  the context's stack of current spans. The processor's queue and worker thread are the SDK's and are left out.
\<close>

datatype exporter =
    ConsoleSpanExporter
  | FileExporter FileSpanExporter
  | OtherExporter string "py_exc option"

text \<open>
  What an exporter's own \<open>shutdown\<close> raises, if anything. The console and the file
  exporter inherit the base class's, which does nothing; any other exporter brings its
  own, named here by its outcome.
\<close>

fun exporter_shutdown :: "exporter \<Rightarrow> py_exc option" where
  "exporter_shutdown ConsoleSpanExporter = None"
| "exporter_shutdown (FileExporter f) = None"
| "exporter_shutdown (OtherExporter name r) = r"

record BatchSpanProcessor =
  span_exporter :: exporter
  shut_down :: bool

record TracerProvider =
  active_span_processors :: "nat list"

record OpenTelemetryTracer =
  span_processors :: "nat list"

record tracer_state =
  cls_instance :: "nat option"
  tracers :: "OpenTelemetryTracer list"
  global_provider :: "TracerProvider option"
  processors :: "BatchSpanProcessor list"
  shutdown_calls :: "nat list"
  spans :: "span list"
  current :: "nat list"

definition initial_state :: tracer_state where
  "initial_state =
     \<lparr>cls_instance = None, tracers = [], global_provider = None, processors = [],
      shutdown_calls = [], spans = [], current = []\<rparr>"

definition set_tracer_provider :: "TracerProvider \<Rightarrow> tracer_state \<Rightarrow> tracer_state" where
  "set_tracer_provider tp st =
     (case global_provider st of
        None \<Rightarrow> st\<lparr>global_provider := Some tp\<rparr>
      | Some g \<Rightarrow> st)"

text \<open>
  \<open>get_instance\<close> as one execution context runs it, the lock taken and released inside.
\<close>

definition get_instance :: "tracer_state \<Rightarrow> tracer_state \<times> nat" where
  "get_instance st =
     (case cls_instance st of
        Some r \<Rightarrow> (st, r)
      | None \<Rightarrow>
          (let r = length (tracers st);
               st1 = st\<lparr>cls_instance := Some r,
                        tracers := tracers st @ [\<lparr>span_processors = []\<rparr>]\<rparr>;
               st2 = set_tracer_provider \<lparr>active_span_processors = []\<rparr> st1
           in (st2, r)))"

text \<open>\<open>OpenTelemetryTracer()\<close>: \<open>__new__\<close> returns \<open>get_instance()\<close>.\<close>

definition new_tracer :: "tracer_state \<Rightarrow> tracer_state \<times> nat" where
  "new_tracer st = get_instance st"

definition append_span_processor :: "nat \<Rightarrow> nat \<Rightarrow> tracer_state \<Rightarrow> tracer_state" where
  "append_span_processor r p st =
     st\<lparr>tracers := (tracers st)[r := (tracers st ! r)\<lparr>span_processors := span_processors (tracers st ! r) @ [p]\<rparr>]\<rparr>"

text \<open>
  \<open>trace.get_tracer_provider().add_span_processor(p)\<close>. Before any provider is set the
  SDK answers with its proxy provider, which has no such method.
\<close>

definition provider_add_span_processor :: "nat \<Rightarrow> tracer_state \<Rightarrow> tracer_state \<times> (py_exc + unit)" where
  "provider_add_span_processor p st =
     (case global_provider st of
        None \<Rightarrow> (st, Inl AttributeError)
      | Some g \<Rightarrow>
          (st\<lparr>global_provider := Some (g\<lparr>active_span_processors := active_span_processors g @ [p]\<rparr>)\<rparr>,
           Inr ()))"

definition add_span_exporter :: "tracer_state \<Rightarrow> exporter \<Rightarrow> tracer_state \<times> (py_exc + unit)" where
  "add_span_exporter st ex =
     (let p = length (processors st);
          st1 = st\<lparr>processors := processors st @ [\<lparr>span_exporter = ex, shut_down = False\<rparr>]\<rparr>;
          (st2, r) = get_instance st1;
          st3 = append_span_processor r p st2
      in provider_add_span_processor p st3)"

definition add_console_span_exporter :: "tracer_state \<Rightarrow> tracer_state \<times> (py_exc + unit)" where
  "add_console_span_exporter st = add_span_exporter st ConsoleSpanExporter"

text \<open>
  \<open>add_file_span_exporter\<close>: the exporter is constructed first; when its constructor
  raises, \<open>add_span_exporter\<close> is never called.
\<close>

definition add_file_span_exporter ::
  "os_state \<times> tracer_state \<Rightarrow> string \<Rightarrow> (os_state \<times> tracer_state) \<times> (py_exc + unit)" where
  "add_file_span_exporter w fname =
     (case FileSpanExporter_init (fst w) fname of
        (s', Inl e) \<Rightarrow> ((s', snd w), Inl e)
      | (s', Inr ex) \<Rightarrow>
          (case add_span_exporter (snd w) (FileExporter ex) of
             (st', r) \<Rightarrow> ((s', st'), r)))"

text \<open>
  Entering the context manager that \<open>start_as_current_span\<close> returns starts a span and
  makes it current; leaving it ends the span and restores the one before.
\<close>

definition start_as_current_span :: "tracer_state \<Rightarrow> string \<Rightarrow> (string \<rightharpoonup> pyval) \<Rightarrow> tracer_state \<times> nat" where
  "start_as_current_span st name attrs =
     (let (st1, r) = get_instance st;
          sid = length (spans st1)
      in (st1\<lparr>spans := spans st1 @ [\<lparr>span_name = name, attributes = attrs, status = UNSET, ended = False\<rparr>],
               current := sid # current st1\<rparr>, sid))"

definition span_end :: "nat \<Rightarrow> tracer_state \<Rightarrow> tracer_state" where
  "span_end sid st = st\<lparr>spans := (spans st)[sid := (spans st ! sid)\<lparr>ended := True\<rparr>]\<rparr>"

definition exit_span :: "tracer_state \<Rightarrow> tracer_state" where
  "exit_span st =
     (case current st of
        [] \<Rightarrow> st
      | sid # rest \<Rightarrow> (span_end sid st)\<lparr>current := rest\<rparr>)"

text \<open>\<open>get_current_span\<close>: \<open>None\<close> stands for the SDK's invalid span, on which every setter is a no-op.\<close>

definition get_current_span :: "tracer_state \<Rightarrow> nat option" where
  "get_current_span st = (case current st of [] \<Rightarrow> None | sid # rest \<Rightarrow> Some sid)"

text \<open>
  A setter called on the current span: nothing happens on the invalid span, and no other
  span changes.
\<close>

definition on_current_span :: "(span \<Rightarrow> span) \<Rightarrow> tracer_state \<Rightarrow> tracer_state" where
  "on_current_span f st =
     (case get_current_span st of
        None \<Rightarrow> st
      | Some sid \<Rightarrow> st\<lparr>spans := (spans st)[sid := f (spans st ! sid)]\<rparr>)"

definition mark_succeeded :: "py_runtime \<Rightarrow> tracer_state \<Rightarrow> tracer_state" where
  "mark_succeeded rt st =
     (let (st1, r) = get_instance st in on_current_span (\<lambda>sp. span_set_status rt sp OK) st1)"

definition mark_failed :: "py_runtime \<Rightarrow> tracer_state \<Rightarrow> tracer_state" where
  "mark_failed rt st =
     (let (st1, r) = get_instance st in on_current_span (\<lambda>sp. span_set_status rt sp ERROR) st1)"

definition set_attribute :: "py_runtime \<Rightarrow> tracer_state \<Rightarrow> string \<Rightarrow> pyval \<Rightarrow> tracer_state \<times> (py_exc + unit)" where
  "set_attribute rt st key v =
     (let (st1, r) = get_instance st in
      case generate_attribute_value rt v of
        Inl e \<Rightarrow> (st1, Inl e)
      | Inr a \<Rightarrow>
          (let (st2, r') = get_instance st1
           in (on_current_span (\<lambda>sp. span_set_attribute rt sp key a) st2, Inr ())))"

text \<open>
  \<open>BatchSpanProcessor.shutdown\<close>, as far as the registry sees it: the processor is marked
  done, and the exporter's own \<open>shutdown\<close> is called last, on every call of the processor's;
  what that raises leaves the processor's \<open>shutdown\<close>.
\<close>

definition processor_shutdown :: "nat \<Rightarrow> tracer_state \<Rightarrow> tracer_state \<times> py_exc option" where
  "processor_shutdown p st =
     (st\<lparr>processors := (processors st)[p := (processors st ! p)\<lparr>shut_down := True\<rparr>],
         shutdown_calls := shutdown_calls st @ [p]\<rparr>,
      exporter_shutdown (span_exporter (processors st ! p)))"

text \<open>The loop of \<open>close\<close>: it has no handler, so the first \<open>shutdown\<close> that raises ends it.\<close>

fun shutdown_all :: "nat list \<Rightarrow> tracer_state \<Rightarrow> tracer_state \<times> py_exc option" where
  "shutdown_all [] st = (st, None)"
| "shutdown_all (p # ps) st =
     (case processor_shutdown p st of
        (st', Some e) \<Rightarrow> (st', Some e)
      | (st', None) \<Rightarrow> shutdown_all ps st')"

definition close :: "tracer_state \<Rightarrow> tracer_state \<times> (py_exc + unit)" where
  "close st =
     (let (st1, r) = get_instance st
      in case shutdown_all (span_processors (tracers st1 ! r)) st1 of
           (st2, Some e) \<Rightarrow> (st2, Inl e)
         | (st2, None) \<Rightarrow> (st2, Inr ()))"

text \<open>The processors the registry holds: none before the instance exists.\<close>

definition registry_processors :: "tracer_state \<Rightarrow> nat list" where
  "registry_processors st =
     (case cls_instance st of None \<Rightarrow> [] | Some r \<Rightarrow> span_processors (tracers st ! r))"

definition provider_processors :: "tracer_state \<Rightarrow> nat list" where
  "provider_processors st =
     (case global_provider st of None \<Rightarrow> [] | Some g \<Rightarrow> active_span_processors g)"

text \<open>
  Whether the \<open>shutdown\<close> of a processor raises, and the processors a loop over a list
  reaches: all of them up to and including the first whose \<open>shutdown\<close> raises.
\<close>

definition shutdown_raises :: "tracer_state \<Rightarrow> nat \<Rightarrow> bool" where
  "shutdown_raises st p = (exporter_shutdown (span_exporter (processors st ! p)) \<noteq> None)"

fun reached :: "(nat \<Rightarrow> bool) \<Rightarrow> nat list \<Rightarrow> nat list" where
  "reached raises [] = []"
| "reached raises (p # ps) = (if raises p then [p] else p # reached raises ps)"

text \<open>
  The states the class can be in: the class attribute names the one tracer object there
  is, made together with a provider, and before that no tracer object exists; every
  processor and span that is referred to has been made.
\<close>

definition wf_state :: "tracer_state \<Rightarrow> bool" where
  "wf_state st =
     ((case cls_instance st of
         None \<Rightarrow> tracers st = []
       | Some r \<Rightarrow> r = 0 \<and> length (tracers st) = 1 \<and> global_provider st \<noteq> None) \<and>
      list_all (\<lambda>p. p < length (processors st)) (registry_processors st) \<and>
      list_all (\<lambda>p. p < length (processors st)) (provider_processors st) \<and>
      list_all (\<lambda>sid. sid < length (spans st)) (current st))"

text \<open>
  \<open>get_instance\<close> under threads. Each thread is at one line of the method: the first
  test of \<open>_instance\<close> (\<open>Check1\<close>), taking the lock (\<open>Acquire\<close>), the second test
  (\<open>Check2\<close>), \<open>object.__new__\<close> with the assignment to \<open>_instance\<close> (\<open>Create\<close>), the lines that
  set up the provider and the fields (\<open>Init\<close>), leaving the \<open>with\<close> block (\<open>Release\<close>), and
  \<open>return cls._instance\<close> (\<open>Return\<close>, then \<open>Done\<close> with the reference returned). A step runs
  one line of one thread; \<open>made\<close> counts the objects \<open>object.__new__\<close> has made. The
  granularity is the source line, not the bytecode.
\<close>

datatype pc = Idle | Check1 | Acquire | Check2 | Create | Init | Release | Return | Done nat

record shared =
  instance_ref :: "nat option"
  made :: nat
  lock_owner :: "nat option"
  pcs :: "nat \<Rightarrow> pc"

definition shared_initial :: shared where
  "shared_initial = \<lparr>instance_ref = None, made = 0, lock_owner = None, pcs = (\<lambda>t. Idle)\<rparr>"

inductive thread_step :: "shared \<Rightarrow> shared \<Rightarrow> bool" where
  call: "pcs c t = Idle \<or> pcs c t = Done r \<Longrightarrow> thread_step c (c\<lparr>pcs := (pcs c)(t := Check1)\<rparr>)"
| check1_unset: "pcs c t = Check1 \<Longrightarrow> instance_ref c = None \<Longrightarrow>
     thread_step c (c\<lparr>pcs := (pcs c)(t := Acquire)\<rparr>)"
| check1_set: "pcs c t = Check1 \<Longrightarrow> instance_ref c = Some r \<Longrightarrow>
     thread_step c (c\<lparr>pcs := (pcs c)(t := Return)\<rparr>)"
| acquire: "pcs c t = Acquire \<Longrightarrow> lock_owner c = None \<Longrightarrow>
     thread_step c (c\<lparr>lock_owner := Some t, pcs := (pcs c)(t := Check2)\<rparr>)"
| check2_unset: "pcs c t = Check2 \<Longrightarrow> instance_ref c = None \<Longrightarrow>
     thread_step c (c\<lparr>pcs := (pcs c)(t := Create)\<rparr>)"
| check2_set: "pcs c t = Check2 \<Longrightarrow> instance_ref c = Some r \<Longrightarrow>
     thread_step c (c\<lparr>pcs := (pcs c)(t := Release)\<rparr>)"
| create: "pcs c t = Create \<Longrightarrow>
     thread_step c (c\<lparr>instance_ref := Some (made c), made := made c + 1, pcs := (pcs c)(t := Init)\<rparr>)"
| init: "pcs c t = Init \<Longrightarrow> thread_step c (c\<lparr>pcs := (pcs c)(t := Release)\<rparr>)"
| release: "pcs c t = Release \<Longrightarrow>
     thread_step c (c\<lparr>lock_owner := None, pcs := (pcs c)(t := Return)\<rparr>)"
| return: "pcs c t = Return \<Longrightarrow> instance_ref c = Some r \<Longrightarrow>
     thread_step c (c\<lparr>pcs := (pcs c)(t := Done r)\<rparr>)"

inductive reachable :: "shared \<Rightarrow> bool" where
  start: "reachable shared_initial"
| step: "reachable c \<Longrightarrow> thread_step c c' \<Longrightarrow> reachable c'"

definition holds_lock :: "pc \<Rightarrow> bool" where
  "holds_lock p = (p = Check2 \<or> p = Create \<or> p = Init \<or> p = Release)"

definition locking_invariant :: "shared \<Rightarrow> bool" where
  "locking_invariant c =
     ((instance_ref c = None \<and> made c = 0 \<or> instance_ref c = Some 0 \<and> made c = 1) \<and>
      (\<forall>t. holds_lock (pcs c t) \<longrightarrow> lock_owner c = Some t) \<and>
      (\<forall>t. pcs c t = Create \<longrightarrow> instance_ref c = None) \<and>
      (\<forall>t. pcs c t = Init \<or> pcs c t = Release \<or> pcs c t = Return \<longrightarrow> instance_ref c \<noteq> None) \<and>
      (\<forall>t r. pcs c t = Done r \<longrightarrow> instance_ref c = Some r))"

text \<open>The operations of the class, and a program as a list of them.\<close>

datatype operation =
    GetInstance
  | NewTracer
  | AddConsoleSpanExporter
  | AddFileSpanExporter string
  | AddSpanExporter exporter
  | StartSpan string "(string \<times> pyval) list"
  | ExitSpan
  | MarkSucceeded
  | MarkFailed
  | SetAttribute string pyval
  | Close

fun step :: "py_runtime \<Rightarrow> os_state \<times> tracer_state \<Rightarrow> operation \<Rightarrow> os_state \<times> tracer_state" where
  "step rt w GetInstance = (fst w, fst (get_instance (snd w)))"
| "step rt w NewTracer = (fst w, fst (new_tracer (snd w)))"
| "step rt w AddConsoleSpanExporter = (fst w, fst (add_console_span_exporter (snd w)))"
| "step rt w (AddFileSpanExporter fname) = fst (add_file_span_exporter w fname)"
| "step rt w (AddSpanExporter ex) = (fst w, fst (add_span_exporter (snd w) ex))"
| "step rt w (StartSpan name attrs) = (fst w, fst (start_as_current_span (snd w) name (map_of attrs)))"
| "step rt w ExitSpan = (fst w, exit_span (snd w))"
| "step rt w MarkSucceeded = (fst w, mark_succeeded rt (snd w))"
| "step rt w MarkFailed = (fst w, mark_failed rt (snd w))"
| "step rt w (SetAttribute key v) = (fst w, fst (set_attribute rt (snd w) key v))"
| "step rt w Close = (fst w, fst (close (snd w)))"

definition run :: "py_runtime \<Rightarrow> os_state \<times> tracer_state \<Rightarrow> operation list \<Rightarrow> os_state \<times> tracer_state" where
  "run rt w ops = foldl (step rt) w ops"

section \<open>A runtime to evaluate with\<close>

text \<open>
  Two instances of the runtime, for evaluating the model on concrete objects, both with
  room for a hundred nested calls. In
  \<open>example_runtime\<close>, \<open>serialize\<close> returns every object as it is, except that it raises
  \<open>TypeError\<close> on an instance of the class \<open>Unserializable\<close>; \<open>json.dumps\<close> encodes \<open>None\<close>,
  booleans, integers, printable strings without quotes and backslashes, and flat lists
  and string-keyed dicts of these, with CPython's text, and raises \<open>TypeError\<close> on every other
  value (CPython encodes some of them); \<open>str\<close> never raises and is CPython's text on
  strings, integers, booleans and \<open>None\<close>. \<open>broken_str_runtime\<close> is the same, with a class
  \<open>Broken\<close> whose \<open>__str__\<close> raises \<open>RuntimeError\<close>.
\<close>

fun digits :: "nat \<Rightarrow> string" where
  "digits n = (if n < 10 then [''0123456789'' ! n] else digits (n div 10) @ [''0123456789'' ! (n mod 10)])"

definition show_int :: "int \<Rightarrow> string" where
  "show_int i = (if i < 0 then CHR ''-'' # digits (nat (- i)) else digits (nat i))"

fun dumps_atom :: "pyval \<Rightarrow> string option" where
  "dumps_atom PNone = Some ''null''"
| "dumps_atom (PBool b) = Some (if b then ''true'' else ''false'')"
| "dumps_atom (PInt i) = Some (show_int i)"
| "dumps_atom (PStr s) =
     (if list_all (\<lambda>c. c \<noteq> CHR 0x22 \<and> c \<noteq> CHR 0x5C \<and> (32::nat) \<le> of_char c \<and> of_char c < (127::nat)) s
      then Some ([CHR 0x22] @ s @ [CHR 0x22]) else None)"
| "dumps_atom _ = None"

fun dumps_item :: "pyval \<times> pyval \<Rightarrow> string option" where
  "dumps_item (PStr k, v) =
     (case (dumps_atom (PStr k), dumps_atom v) of
        (Some a, Some b) \<Rightarrow> Some (a @ '': '' @ b)
      | _ \<Rightarrow> None)"
| "dumps_item _ = None"

fun join :: "string \<Rightarrow> string list \<Rightarrow> string" where
  "join sep [] = []"
| "join sep [x] = x"
| "join sep (x # y # ys) = x @ sep @ join sep (y # ys)"

definition example_dumps :: "pyval \<Rightarrow> py_exc + string" where
  "example_dumps v =
     (case v of
        PDict kvs \<Rightarrow>
          (case those (map dumps_item kvs) of
             Some ts \<Rightarrow> Inr (''{'' @ join '', '' ts @ ''}'')
           | None \<Rightarrow> Inl TypeError)
      | PList xs \<Rightarrow>
          (case those (map dumps_atom xs) of
             Some ts \<Rightarrow> Inr (''['' @ join '', '' ts @ '']'')
           | None \<Rightarrow> Inl TypeError)
      | _ \<Rightarrow> (case dumps_atom v of Some t \<Rightarrow> Inr t | None \<Rightarrow> Inl TypeError))"

definition example_str :: "pyval \<Rightarrow> string" where
  "example_str v =
     (case v of
        PStr s \<Rightarrow> s
      | PInt i \<Rightarrow> show_int i
      | PBool b \<Rightarrow> (if b then ''True'' else ''False'')
      | PNone \<Rightarrow> ''None''
      | PObject c fs \<Rightarrow> ''<'' @ c @ '' object>''
      | _ \<Rightarrow> ''<container>'')"

text \<open>
  Stand-ins for the SDK span's setters, to evaluate with. \<open>set_attribute\<close> leaves an ended
  span and an empty key alone, stores a primitive as it is, stores as a tuple a list or
  tuple whose items, \<open>None\<close> apart, are primitives of one type, and drops any other value;
  the SDK's limits on the number of attributes and on their length are left out.
  \<open>set_status\<close> leaves an ended span alone, keeps a status that is already \<open>OK\<close> and ignores
  \<open>UNSET\<close>.
\<close>

fun primitive_kind :: "pyval \<Rightarrow> nat option" where
  "primitive_kind (PStr s) = Some 0"
| "primitive_kind (PBool b) = Some 1"
| "primitive_kind (PInt i) = Some 2"
| "primitive_kind (PFloat f) = Some 3"
| "primitive_kind _ = None"

definition homogeneous :: "pyval list \<Rightarrow> bool" where
  "homogeneous xs =
     (let ys = filter (\<lambda>x. x \<noteq> PNone) xs
      in list_all (\<lambda>y. primitive_kind y \<noteq> None) ys \<and>
         (case ys of [] \<Rightarrow> True | y # rest \<Rightarrow> list_all (\<lambda>z. primitive_kind z = primitive_kind y) rest))"

definition example_set_attribute :: "span \<Rightarrow> string \<Rightarrow> pyval \<Rightarrow> span" where
  "example_set_attribute sp key v =
     (if ended sp \<or> key = [] then sp
      else (case v of
              PList xs \<Rightarrow>
                (if homogeneous xs then sp\<lparr>attributes := (attributes sp)(key \<mapsto> PTuple xs)\<rparr> else sp)
            | PTuple xs \<Rightarrow>
                (if homogeneous xs then sp\<lparr>attributes := (attributes sp)(key \<mapsto> PTuple xs)\<rparr> else sp)
            | _ \<Rightarrow>
                (if primitive_kind v \<noteq> None then sp\<lparr>attributes := (attributes sp)(key \<mapsto> v)\<rparr>
                 else sp)))"

definition example_set_status :: "span \<Rightarrow> StatusCode \<Rightarrow> span" where
  "example_set_status sp code =
     (if ended sp \<or> status sp = OK \<or> code = UNSET then sp else sp\<lparr>status := code\<rparr>)"

definition example_runtime :: py_runtime where
  "example_runtime =
     \<lparr>serialize = (\<lambda>v. if v = PObject ''Unserializable'' [] then Inl TypeError else Inr v),
      json_dumps = example_dumps,
      py_str = (\<lambda>v. Inr (example_str v)),
      stack_room = 100,
      span_set_attribute = example_set_attribute,
      span_set_status = example_set_status\<rparr>"

definition broken_str_runtime :: py_runtime where
  "broken_str_runtime =
     example_runtime\<lparr>py_str := (\<lambda>v. if v = PObject ''Broken'' [] then Inl (OtherException ''RuntimeError'')
                                     else Inr (example_str v))\<rparr>"

text \<open>
  States to evaluate with: a file system with nothing in it; the registry after two
  exporters have been added, once with exporters that shut down quietly and once with a
  first exporter whose \<open>shutdown\<close> raises \<open>RuntimeError\<close>; and the registry with one span
  started.
\<close>

definition empty_os :: os_state where
  "empty_os = \<lparr>nodes = Map.empty, space = None, opened = []\<rparr>"

text \<open>
  A span serializer that writes the span's name only, a span, and file systems: after
  \<open>FileSpanExporter("logs/trace.jsonl")\<close> and after \<open>FileSpanExporter("out/")\<close> on the empty
  one, and the first with room for five more characters.
\<close>

definition example_to_json :: "span \<Rightarrow> string" where
  "example_to_json sp =
     ''{'' @ [CHR 0x22] @ ''name'' @ [CHR 0x22] @ '': '' @ [CHR 0x22] @ span_name sp @ [CHR 0x22] @ ''}''"

definition example_span :: "string \<Rightarrow> span" where
  "example_span n = \<lparr>span_name = n, attributes = Map.empty, status = OK, ended = True\<rparr>"

definition logs_state :: os_state where
  "logs_state = fst (FileSpanExporter_init empty_os ''logs/trace.jsonl'')"

definition out_state :: os_state where
  "out_state = fst (FileSpanExporter_init empty_os ''out/'')"

definition full_disk_state :: os_state where
  "full_disk_state = logs_state\<lparr>space := Some 5\<rparr>"

definition first_call_done :: shared where
  "first_call_done =
     \<lparr>instance_ref = Some 0, made = 1, lock_owner = None, pcs = (\<lambda>t. Idle)(0 := Done 0)\<rparr>"

definition two_exporters_state :: tracer_state where
  "two_exporters_state =
     fst (add_span_exporter (fst (add_span_exporter initial_state ConsoleSpanExporter))
            (OtherExporter ''otlp'' None))"

definition faulty_exporter_state :: tracer_state where
  "faulty_exporter_state =
     fst (add_span_exporter
            (fst (add_span_exporter initial_state
                    (OtherExporter ''faulty'' (Some (OtherException ''RuntimeError'')))))
            ConsoleSpanExporter)"

definition one_span_state :: tracer_state where
  "one_span_state = fst (start_as_current_span initial_state ''flow'' Map.empty)"

section \<open>Properties of the attribute coercion\<close>



















lemma example_dict: "generate_attribute_value example_runtime (PDict [(PStr ''a'', PInt 1)]) =
    Inr (PStr (''{'' @ [CHR 0x22] @ ''a'' @ [CHR 0x22] @ '': 1}''))"
  by (simp add: generate_attribute_value_def serialize_or_str_def example_runtime_def
      example_dumps_def show_int_def)









section \<open>Properties of the registry\<close>

lemma get_instance_some: "cls_instance st = Some r \<Longrightarrow> get_instance st = (st, r)"
  by (simp add: get_instance_def)

lemma get_instance_frame:
  "processors (fst (get_instance st)) = processors st"
  "shutdown_calls (fst (get_instance st)) = shutdown_calls st"
  "spans (fst (get_instance st)) = spans st"
  "current (fst (get_instance st)) = current st"
  by (auto simp: get_instance_def set_tracer_provider_def Let_def split: option.splits)

lemma get_instance_wf:
  assumes "wf_state st"
  shows "wf_state (fst (get_instance st))"
    and "snd (get_instance st) = 0"
    and "cls_instance (fst (get_instance st)) = Some 0"
    and "length (tracers (fst (get_instance st))) = 1"
    and "registry_processors (fst (get_instance st)) = registry_processors st"
    and "provider_processors (fst (get_instance st)) = provider_processors st"
    and "global_provider (fst (get_instance st)) \<noteq> None"
  using assms
  by (auto simp: wf_state_def get_instance_def set_tracer_provider_def Let_def
      registry_processors_def provider_processors_def split: option.splits)

lemma get_instance_twice:
  "wf_state st \<Longrightarrow> get_instance (fst (get_instance st)) = (fst (get_instance st), 0)"
  using get_instance_wf(3) [of st] get_instance_some by blast

lemma registry_processors_eqI:
  "cls_instance st' = cls_instance st \<Longrightarrow> tracers st' = tracers st \<Longrightarrow>
   registry_processors st' = registry_processors st"
  by (simp add: registry_processors_def split: option.splits)

lemma provider_processors_eqI:
  "global_provider st' = global_provider st \<Longrightarrow> provider_processors st' = provider_processors st"
  by (simp add: provider_processors_def)

lemma registry_processors_frame:
  "registry_processors (st\<lparr>processors := ps\<rparr>) = registry_processors st"
  "provider_processors (st\<lparr>processors := ps\<rparr>) = provider_processors st"
  by (simp_all add: registry_processors_def provider_processors_def split: option.splits)

lemma add_span_exporter_effect:
  assumes "wf_state st"
  shows "snd (add_span_exporter st ex) = Inr ()"
    and "processors (fst (add_span_exporter st ex)) =
           processors st @ [\<lparr>span_exporter = ex, shut_down = False\<rparr>]"
    and "registry_processors (fst (add_span_exporter st ex)) =
           registry_processors st @ [length (processors st)]"
    and "provider_processors (fst (add_span_exporter st ex)) =
           provider_processors st @ [length (processors st)]"
    and "wf_state (fst (add_span_exporter st ex))"
    and "shutdown_calls (fst (add_span_exporter st ex)) = shutdown_calls st"
    and "spans (fst (add_span_exporter st ex)) = spans st"
    and "current (fst (add_span_exporter st ex)) = current st"
    and "length (tracers (fst (add_span_exporter st ex))) = 1"
proof -
  define st1 where "st1 = st\<lparr>processors := processors st @ [\<lparr>span_exporter = ex, shut_down = False\<rparr>]\<rparr>"
  define st2 where "st2 = fst (get_instance st1)"
  define p where "p = length (processors st)"
  define st3 where "st3 = append_span_processor 0 p st2"
  have wf1: "wf_state st1"
    using assms unfolding wf_state_def st1_def registry_processors_def provider_processors_def
    by (auto simp: list_all_iff less_Suc_eq split: option.splits)
  have gi: "get_instance st1 = (st2, 0)"
    using get_instance_wf(2) [OF wf1] by (simp add: st2_def prod_eq_iff)
  have ase: "add_span_exporter st ex = provider_add_span_processor p st3"
    by (simp add: add_span_exporter_def Let_def gi st1_def [symmetric] p_def st3_def)
  have wf2: "wf_state st2" using get_instance_wf(1) [OF wf1] by (simp add: st2_def)
  have c2: "cls_instance st2 = Some 0" "length (tracers st2) = 1" "global_provider st2 \<noteq> None"
    using get_instance_wf(3,4,7) [OF wf1] by (simp_all add: st2_def)
  have r2: "registry_processors st2 = registry_processors st"
    using get_instance_wf(5) [OF wf1] by (simp add: st2_def st1_def registry_processors_frame)
  have p2: "provider_processors st2 = provider_processors st"
    using get_instance_wf(6) [OF wf1] by (simp add: st2_def st1_def registry_processors_frame)
  have f2: "processors st2 = processors st1" "shutdown_calls st2 = shutdown_calls st"
    "spans st2 = spans st" "current st2 = current st"
    using get_instance_frame [of st1] by (simp_all add: st2_def st1_def)
  obtain g where g: "global_provider st2 = Some g" using c2(3) by auto
  have "registry_processors st3 = span_processors (tracers st2 ! 0) @ [p]"
    using c2 by (simp add: st3_def append_span_processor_def registry_processors_def)
  moreover have "registry_processors st2 = span_processors (tracers st2 ! 0)"
    using c2 by (simp add: registry_processors_def)
  ultimately have r3: "registry_processors st3 = registry_processors st @ [p]"
    using r2 by simp
  have res: "add_span_exporter st ex =
      (st3\<lparr>global_provider := Some (g\<lparr>active_span_processors := active_span_processors g @ [p]\<rparr>)\<rparr>, Inr ())"
    using g by (simp add: ase provider_add_span_processor_def st3_def append_span_processor_def)
  show "snd (add_span_exporter st ex) = Inr ()" by (simp add: res)
  show "processors (fst (add_span_exporter st ex)) =
           processors st @ [\<lparr>span_exporter = ex, shut_down = False\<rparr>]"
    by (simp add: res st3_def append_span_processor_def f2 st1_def)
  have "registry_processors (fst (add_span_exporter st ex)) = registry_processors st3"
    by (rule registry_processors_eqI) (simp_all add: res)
  then show rr: "registry_processors (fst (add_span_exporter st ex)) =
           registry_processors st @ [length (processors st)]"
    using r3 by (simp add: p_def)
  show pp: "provider_processors (fst (add_span_exporter st ex)) =
           provider_processors st @ [length (processors st)]"
    using p2 g by (simp add: res provider_processors_def p_def)
  show "shutdown_calls (fst (add_span_exporter st ex)) = shutdown_calls st"
    by (simp add: res st3_def append_span_processor_def f2)
  show "spans (fst (add_span_exporter st ex)) = spans st"
    by (simp add: res st3_def append_span_processor_def f2)
  show "current (fst (add_span_exporter st ex)) = current st"
    by (simp add: res st3_def append_span_processor_def f2)
  show "length (tracers (fst (add_span_exporter st ex))) = 1"
    by (simp add: res st3_def append_span_processor_def c2)
  have "list_all (\<lambda>q. q < length (processors st)) (registry_processors st)"
    "list_all (\<lambda>q. q < length (processors st)) (provider_processors st)"
    "list_all (\<lambda>sid. sid < length (spans st)) (current st)"
    using assms by (simp_all add: wf_state_def)
  then show "wf_state (fst (add_span_exporter st ex))"
    unfolding wf_state_def rr pp
    by (auto simp: res st3_def append_span_processor_def f2 st1_def c2 list_all_iff less_Suc_eq)
qed

lemma processor_shutdown_exporter:
  "span_exporter (processors (fst (processor_shutdown q st)) ! p) = span_exporter (processors st ! p)"
proof (cases "q < length (processors st)")
  case True
  then show ?thesis by (cases "p = q") (simp_all add: processor_shutdown_def)
next
  case False
  then show ?thesis by (simp add: processor_shutdown_def list_update_beyond)
qed

lemma processor_shutdown_raises:
  "shutdown_raises (fst (processor_shutdown q st)) = shutdown_raises st"
  by (simp add: shutdown_raises_def fun_eq_iff processor_shutdown_exporter)

lemma reached_prefix: "prefix (reached R ps) ps"
  by (induction ps) simp_all

lemma reached_all: "(\<forall>p \<in> set ps. \<not> R p) \<Longrightarrow> reached R ps = ps"
  by (induction ps) simp_all

lemma reached_first:
  "i < length ps \<Longrightarrow> R (ps ! i) \<Longrightarrow> (\<forall>j < i. \<not> R (ps ! j)) \<Longrightarrow> reached R ps = take (Suc i) ps"
proof (induction ps arbitrary: i)
  case Nil
  then show ?case by simp
next
  case (Cons q ps)
  show ?case
  proof (cases i)
    case 0
    with Cons.prems show ?thesis by simp
  next
    case (Suc k)
    have "0 < i" using Suc by simp
    with Cons.prems(3) have q: "\<not> R ((q # ps) ! 0)" by blast
    have before: "\<forall>j < k. \<not> R (ps ! j)"
    proof (intro allI impI)
      fix j assume "j < k"
      then have "Suc j < i" using Suc by simp
      with Cons.prems(3) have "\<not> R ((q # ps) ! Suc j)" by blast
      then show "\<not> R (ps ! j)" by simp
    qed
    from Cons.prems Suc have "k < length ps" "R (ps ! k)" by simp_all
    from Cons.IH [OF this before] q show ?thesis by (simp add: Suc)
  qed
qed

lemma reached_Nil: "reached R ps = [] \<longleftrightarrow> ps = []"
  by (cases ps) simp_all

lemma shutdown_all_effect:
  "shutdown_calls (fst (shutdown_all ps st)) = shutdown_calls st @ reached (shutdown_raises st) ps \<and>
   snd (shutdown_all ps st) =
     (if ps = [] then None
      else exporter_shutdown (span_exporter (processors st ! last (reached (shutdown_raises st) ps)))) \<and>
   tracers (fst (shutdown_all ps st)) = tracers st \<and>
   cls_instance (fst (shutdown_all ps st)) = cls_instance st \<and>
   global_provider (fst (shutdown_all ps st)) = global_provider st \<and>
   spans (fst (shutdown_all ps st)) = spans st \<and>
   current (fst (shutdown_all ps st)) = current st \<and>
   length (processors (fst (shutdown_all ps st))) = length (processors st) \<and>
   (\<forall>p. span_exporter (processors (fst (shutdown_all ps st)) ! p) = span_exporter (processors st ! p)) \<and>
   (\<forall>p < length (processors st).
      shut_down (processors (fst (shutdown_all ps st)) ! p) =
        (p \<in> set (reached (shutdown_raises st) ps) \<or> shut_down (processors st ! p)))"
proof (induction ps arbitrary: st)
  case Nil
  show ?case by simp
next
  case (Cons q ps)
  define s where "s = fst (processor_shutdown q st)"
  have a: "shutdown_calls s = shutdown_calls st @ [q]" "tracers s = tracers st"
    "cls_instance s = cls_instance st" "global_provider s = global_provider st"
    "spans s = spans st" "current s = current st"
    "length (processors s) = length (processors st)"
    by (simp_all add: s_def processor_shutdown_def)
  have b: "\<forall>p < length (processors st).
      shut_down (processors s ! p) = (p = q \<or> shut_down (processors st ! p))"
  proof (cases "q < length (processors st)")
    case True
    then show ?thesis by (auto simp: s_def processor_shutdown_def nth_list_update)
  next
    case False
    then show ?thesis by (auto simp: s_def processor_shutdown_def)
  qed
  have x: "\<forall>p. span_exporter (processors s ! p) = span_exporter (processors st ! p)"
    by (simp add: s_def processor_shutdown_exporter)
  have r: "shutdown_raises s = shutdown_raises st"
    unfolding s_def by (rule processor_shutdown_raises)
  have pq: "processor_shutdown q st = (s, exporter_shutdown (span_exporter (processors st ! q)))"
    by (simp add: s_def processor_shutdown_def)
  show ?case
  proof (cases "shutdown_raises st q")
    case True
    then obtain e where e: "exporter_shutdown (span_exporter (processors st ! q)) = Some e"
      by (auto simp: shutdown_raises_def)
    have u: "shutdown_all (q # ps) st = (s, Some e)"
      by (simp add: pq e)
    from True a b x e show ?thesis unfolding u by simp
  next
    case False
    then have n: "exporter_shutdown (span_exporter (processors st ! q)) = None"
      by (simp add: shutdown_raises_def)
    have u: "shutdown_all (q # ps) st = shutdown_all ps s"
      by (simp add: pq n)
    note ih = Cons.IH [of s, unfolded r a]
    show ?thesis
    proof (cases "ps = []")
      case True
      have u': "shutdown_all (q # ps) st = (s, None)" unfolding u by (simp add: True)
      from True False a b x n show ?thesis unfolding u' by simp
    next
      case ne: False
      then have l: "last (reached (shutdown_raises st) (q # ps)) = last (reached (shutdown_raises st) ps)"
        using False by (simp add: reached_Nil)
      have rq: "reached (shutdown_raises st) (q # ps) = q # reached (shutdown_raises st) ps"
        using False by simp
      from ih ne b x show ?thesis
        unfolding u l rq by (auto simp: reached_Nil)
    qed
  qed
qed

lemma close_effect:
  assumes "wf_state st"
  shows "shutdown_calls (fst (close st)) =
           shutdown_calls st @ reached (shutdown_raises st) (registry_processors st)"
    and "registry_processors (fst (close st)) = registry_processors st"
    and "provider_processors (fst (close st)) = provider_processors st"
    and "wf_state (fst (close st))"
    and "\<forall>p < length (processors st). shut_down (processors (fst (close st)) ! p) =
           (p \<in> set (reached (shutdown_raises st) (registry_processors st)) \<or>
            shut_down (processors st ! p))"
    and "length (tracers (fst (close st))) = 1"
    and "snd (close st) =
           (if registry_processors st = [] then Inr ()
            else (case exporter_shutdown (span_exporter (processors st !
                         last (reached (shutdown_raises st) (registry_processors st)))) of
                    None \<Rightarrow> Inr () | Some e \<Rightarrow> Inl e))"
    and "shutdown_raises (fst (close st)) = shutdown_raises st"
proof -
  define st1 where "st1 = fst (get_instance st)"
  have gi: "get_instance st = (st1, 0)"
    using get_instance_wf(2) [OF assms] by (simp add: st1_def prod_eq_iff)
  have wf1: "wf_state st1" and c1: "cls_instance st1 = Some 0" "length (tracers st1) = 1"
    and r1: "registry_processors st1 = registry_processors st"
    and p1: "provider_processors st1 = provider_processors st"
    using get_instance_wf [OF assms] by (simp_all add: st1_def)
  have f1: "processors st1 = processors st" "shutdown_calls st1 = shutdown_calls st"
    using get_instance_frame [of st] by (simp_all add: st1_def)
  have sr: "shutdown_raises st1 = shutdown_raises st"
    by (simp add: shutdown_raises_def fun_eq_iff f1)
  define rp where "rp = registry_processors st"
  have rp: "span_processors (tracers st1 ! 0) = rp"
    using r1 c1 by (simp add: registry_processors_def rp_def)
  define st2 where "st2 = fst (shutdown_all rp st1)"
  have cl: "fst (close st) = st2"
    by (simp add: close_def gi rp st2_def split: prod.splits option.splits)
  have cr: "snd (close st) = (case snd (shutdown_all rp st1) of None \<Rightarrow> Inr () | Some e \<Rightarrow> Inl e)"
    by (simp add: close_def gi rp split: prod.splits option.splits)
  note fs = shutdown_all_effect [of rp st1, folded st2_def, unfolded sr f1]
  have k: "cls_instance st2 = Some 0" "tracers st2 = tracers st1"
    "global_provider st2 = global_provider st1"
    "length (processors st2) = length (processors st)"
    "spans st2 = spans st1" "current st2 = current st1"
    using fs c1 by simp_all
  show "shutdown_calls (fst (close st)) =
      shutdown_calls st @ reached (shutdown_raises st) (registry_processors st)"
    using fs by (simp add: cl rp_def)
  have rr': "registry_processors st2 = rp"
    using k rp by (simp add: registry_processors_def)
  then show "registry_processors (fst (close st)) = registry_processors st"
    by (simp add: rp_def cl)
  have pp': "provider_processors st2 = provider_processors st1"
    using k by (simp add: provider_processors_def)
  then show "provider_processors (fst (close st)) = provider_processors st"
    by (simp add: p1 cl)
  show "length (tracers (fst (close st))) = 1" using k c1 by (simp add: cl)
  show "\<forall>p < length (processors st). shut_down (processors (fst (close st)) ! p) =
           (p \<in> set (reached (shutdown_raises st) (registry_processors st)) \<or>
            shut_down (processors st ! p))"
    using fs by (simp add: cl rp_def)
  show "snd (close st) =
           (if registry_processors st = [] then Inr ()
            else (case exporter_shutdown (span_exporter (processors st !
                         last (reached (shutdown_raises st) (registry_processors st)))) of
                    None \<Rightarrow> Inr () | Some e \<Rightarrow> Inl e))"
    using fs by (simp add: cr rp_def)
  have "\<forall>p. span_exporter (processors st2 ! p) = span_exporter (processors st ! p)"
    using fs by simp
  then show "shutdown_raises (fst (close st)) = shutdown_raises st"
    by (simp add: shutdown_raises_def fun_eq_iff cl)
  have "wf_state st2 = wf_state st1"
    unfolding wf_state_def rr' pp' k using r1 c1 f1 by (simp add: rp_def)
  with wf1 show "wf_state (fst (close st))" by (simp add: cl)
qed

lemma wf_state_iff:
  "wf_state st \<longleftrightarrow>
     ((cls_instance st = None \<and> tracers st = []) \<or>
      (cls_instance st = Some 0 \<and> length (tracers st) = 1 \<and> global_provider st \<noteq> None)) \<and>
     (\<forall>p \<in> set (registry_processors st). p < length (processors st)) \<and>
     (\<forall>p \<in> set (provider_processors st). p < length (processors st)) \<and>
     (\<forall>sid \<in> set (current st). sid < length (spans st))"
  by (auto simp: wf_state_def list_all_iff split: option.splits)

lemma wf_state_eqI:
  "cls_instance st' = cls_instance st \<Longrightarrow> tracers st' = tracers st \<Longrightarrow>
   global_provider st' = global_provider st \<Longrightarrow>
   length (processors st') = length (processors st) \<Longrightarrow>
   length (spans st') = length (spans st) \<Longrightarrow> current st' = current st \<Longrightarrow>
   wf_state st' = wf_state st"
  using registry_processors_eqI [of st' st] provider_processors_eqI [of st' st]
  by (simp add: wf_state_iff)

lemma on_current_span_frame:
  "cls_instance (on_current_span f st) = cls_instance st"
  "tracers (on_current_span f st) = tracers st"
  "global_provider (on_current_span f st) = global_provider st"
  "processors (on_current_span f st) = processors st"
  "shutdown_calls (on_current_span f st) = shutdown_calls st"
  "length (spans (on_current_span f st)) = length (spans st)"
  "current (on_current_span f st) = current st"
  by (simp_all add: on_current_span_def split: option.splits)

lemma get_instance_pair: "wf_state st \<Longrightarrow> get_instance st = (fst (get_instance st), 0)"
  using get_instance_wf(2) [of st] by (simp add: prod_eq_iff)

lemma mark_wf:
  assumes "wf_state st"
  shows "wf_state (mark_succeeded rt st)" "wf_state (mark_failed rt st)"
    "registry_processors (mark_succeeded rt st) = registry_processors st"
    "registry_processors (mark_failed rt st) = registry_processors st"
proof -
  let ?s = "fst (get_instance st)"
  have ms: "mark_succeeded rt st = on_current_span (\<lambda>sp. span_set_status rt sp OK) ?s"
    "mark_failed rt st = on_current_span (\<lambda>sp. span_set_status rt sp ERROR) ?s"
    using get_instance_pair [OF assms] by (simp_all add: mark_succeeded_def mark_failed_def split_beta)
  have "wf_state (on_current_span f ?s) = wf_state ?s" for f
    by (rule wf_state_eqI) (simp_all add: on_current_span_frame)
  then show "wf_state (mark_succeeded rt st)" "wf_state (mark_failed rt st)"
    using get_instance_wf(1) [OF assms] by (simp_all add: ms)
  have "registry_processors (on_current_span f ?s) = registry_processors ?s" for f
    by (rule registry_processors_eqI) (simp_all add: on_current_span_frame)
  then show "registry_processors (mark_succeeded rt st) = registry_processors st"
    "registry_processors (mark_failed rt st) = registry_processors st"
    using get_instance_wf(5) [OF assms] by (simp_all add: ms)
qed

lemma set_attribute_unfold:
  assumes "wf_state st"
  shows "set_attribute rt st key v =
     (case generate_attribute_value rt v of
        Inl e \<Rightarrow> (fst (get_instance st), Inl e)
      | Inr a \<Rightarrow> (on_current_span (\<lambda>sp. span_set_attribute rt sp key a) (fst (get_instance st)), Inr ()))"
proof -
  have 1: "get_instance st = (fst (get_instance st), 0)" by (rule get_instance_pair [OF assms])
  have 2: "get_instance (fst (get_instance st)) = (fst (get_instance st), 0)"
    by (rule get_instance_twice [OF assms])
  show ?thesis
    unfolding set_attribute_def
    by (subst 1) (simp add: 2 split: sum.splits)
qed

lemma set_attribute_wf:
  assumes "wf_state st"
  shows "wf_state (fst (set_attribute rt st key v))"
    "registry_processors (fst (set_attribute rt st key v)) = registry_processors st"
proof -
  let ?s = "fst (get_instance st)"
  have w: "wf_state (on_current_span f ?s) = wf_state ?s" for f
    by (rule wf_state_eqI) (simp_all add: on_current_span_frame)
  have r: "registry_processors (on_current_span f ?s) = registry_processors ?s" for f
    by (rule registry_processors_eqI) (simp_all add: on_current_span_frame)
  show "wf_state (fst (set_attribute rt st key v))"
    using get_instance_wf(1) [OF assms] w
    by (simp add: set_attribute_unfold [OF assms] split: sum.splits)
  show "registry_processors (fst (set_attribute rt st key v)) = registry_processors st"
    using get_instance_wf(5) [OF assms] r
    by (simp add: set_attribute_unfold [OF assms] split: sum.splits)
qed

lemma start_span_wf:
  assumes "wf_state st"
  shows "wf_state (fst (start_as_current_span st name attrs))"
    "registry_processors (fst (start_as_current_span st name attrs)) = registry_processors st"
proof -
  let ?s = "fst (get_instance st)"
  let ?t = "?s\<lparr>spans := spans ?s @ [\<lparr>span_name = name, attributes = attrs, status = UNSET, ended = False\<rparr>],
               current := length (spans ?s) # current ?s\<rparr>"
  have u: "fst (start_as_current_span st name attrs) = ?t"
    unfolding start_as_current_span_def
    by (subst get_instance_pair [OF assms]) (simp add: Let_def)
  have rp: "registry_processors ?t = registry_processors ?s"
    by (rule registry_processors_eqI) simp_all
  have pp: "provider_processors ?t = provider_processors ?s"
    by (rule provider_processors_eqI) simp
  have "wf_state ?s" by (rule get_instance_wf(1) [OF assms])
  then have "wf_state ?t"
    unfolding wf_state_iff rp pp by (auto simp: less_Suc_eq)
  then show "wf_state (fst (start_as_current_span st name attrs))" by (simp add: u)
  show "registry_processors (fst (start_as_current_span st name attrs)) = registry_processors st"
    using get_instance_wf(5) [OF assms] rp by (simp add: u)
qed

lemma exit_span_wf:
  assumes "wf_state st"
  shows "wf_state (exit_span st)" "registry_processors (exit_span st) = registry_processors st"
proof -
  show r: "registry_processors (exit_span st) = registry_processors st"
    by (rule registry_processors_eqI) (simp_all add: exit_span_def span_end_def split: list.splits)
  have p: "provider_processors (exit_span st) = provider_processors st"
    by (rule provider_processors_eqI) (simp add: exit_span_def span_end_def split: list.splits)
  have "cls_instance (exit_span st) = cls_instance st" "tracers (exit_span st) = tracers st"
    "global_provider (exit_span st) = global_provider st"
    "processors (exit_span st) = processors st"
    "length (spans (exit_span st)) = length (spans st)"
    "set (current (exit_span st)) \<subseteq> set (current st)"
    by (auto simp: exit_span_def span_end_def split: list.splits)
  with assms show "wf_state (exit_span st)"
    unfolding wf_state_iff r p by auto
qed

lemma add_file_span_exporter_snd:
  "snd (fst (add_file_span_exporter w fname)) = snd w \<or>
   (\<exists>ex. snd (fst (add_file_span_exporter w fname)) = fst (add_span_exporter (snd w) (FileExporter ex)))"
proof (cases "FileSpanExporter_init (fst w) fname")
  case (Pair s' r)
  show ?thesis
  proof (cases r)
    case (Inl e)
    with Pair show ?thesis by (simp add: add_file_span_exporter_def)
  next
    case (Inr ex)
    with Pair have "snd (fst (add_file_span_exporter w fname)) =
        fst (add_span_exporter (snd w) (FileExporter ex))"
      by (simp add: add_file_span_exporter_def split: prod.splits)
    then show ?thesis by blast
  qed
qed

lemma step_wf:
  assumes "wf_state (snd w)"
  shows "wf_state (snd (step rt w op)) \<and>
         prefix (registry_processors (snd w)) (registry_processors (snd (step rt w op)))"
proof (cases op)
  case GetInstance
  then show ?thesis using get_instance_wf(1,5) [OF assms] by simp
next
  case NewTracer
  then show ?thesis using get_instance_wf(1,5) [OF assms] by (simp add: new_tracer_def)
next
  case AddConsoleSpanExporter
  then show ?thesis
    using add_span_exporter_effect(3,5) [OF assms] by (simp add: add_console_span_exporter_def)
next
  case (AddFileSpanExporter fname)
  then show ?thesis
    using add_file_span_exporter_snd [of w fname] add_span_exporter_effect(3,5) [OF assms] assms
    by auto
next
  case (AddSpanExporter ex)
  then show ?thesis using add_span_exporter_effect(3,5) [OF assms] by simp
next
  case (StartSpan name attrs)
  then show ?thesis using start_span_wf [OF assms] by simp
next
  case ExitSpan
  then show ?thesis using exit_span_wf [OF assms] by simp
next
  case MarkSucceeded
  then show ?thesis using mark_wf [OF assms] by simp
next
  case MarkFailed
  then show ?thesis using mark_wf [OF assms] by simp
next
  case (SetAttribute key v)
  then show ?thesis using set_attribute_wf [OF assms] by simp
next
  case Close
  then show ?thesis using close_effect(2,4) [OF assms] by simp
qed

lemma run_wf:
  "wf_state (snd w) \<Longrightarrow>
   wf_state (snd (run rt w ops)) \<and>
   prefix (registry_processors (snd w)) (registry_processors (snd (run rt w ops)))"
proof (induction ops arbitrary: w)
  case Nil
  then show ?case by (simp add: run_def)
next
  case (Cons op ops)
  from step_wf [OF Cons.prems, of rt op]
  have 1: "wf_state (snd (step rt w op))"
    and 2: "prefix (registry_processors (snd w)) (registry_processors (snd (step rt w op)))"
    by simp_all
  from Cons.IH [OF 1] 2 show ?case
    by (auto simp: run_def intro: prefix_order.trans)
qed

lemma wf_initial_state: "wf_state initial_state"
  by (simp add: wf_state_def initial_state_def registry_processors_def provider_processors_def)

lemma get_current_span_get_instance:
  "get_current_span (fst (get_instance st)) = get_current_span st"
  by (simp add: get_current_span_def get_instance_frame)

lemma two_exporters_state_facts:
  "wf_state two_exporters_state"
  "registry_processors two_exporters_state = [0, 1]"
  "shutdown_calls two_exporters_state = []"
proof -
  note e = add_span_exporter_effect [OF wf_initial_state, of ConsoleSpanExporter]
  note e2 = add_span_exporter_effect [OF e(5), of "OtherExporter ''otlp'' None"]
  have i: "processors initial_state = []" "registry_processors initial_state = []"
    "shutdown_calls initial_state = []"
    by (simp_all add: initial_state_def registry_processors_def)
  show "wf_state two_exporters_state" using e2(5) by (simp add: two_exporters_state_def)
  show "registry_processors two_exporters_state = [0, 1]"
    by (simp add: two_exporters_state_def e2(3) e(2,3) i)
  show "shutdown_calls two_exporters_state = []"
    by (simp add: two_exporters_state_def e2(6) e(6) i)
qed

lemma one_span_state_facts:
  "wf_state one_span_state"
  "get_current_span one_span_state = Some 0"
  "spans one_span_state = [\<lparr>span_name = ''flow'', attributes = Map.empty, status = UNSET, ended = False\<rparr>]"
proof -
  show "wf_state one_span_state"
    using start_span_wf(1) [OF wf_initial_state] by (simp add: one_span_state_def)
  show "get_current_span one_span_state = Some 0"
    by (simp add: one_span_state_def start_as_current_span_def get_instance_def initial_state_def
        set_tracer_provider_def get_current_span_def Let_def)
  show "spans one_span_state = [\<lparr>span_name = ''flow'', attributes = Map.empty, status = UNSET, ended = False\<rparr>]"
    by (simp add: one_span_state_def start_as_current_span_def get_instance_def initial_state_def
        set_tracer_provider_def Let_def)
qed

lemma invariant_initial: "locking_invariant shared_initial"
  by (simp add: locking_invariant_def shared_initial_def holds_lock_def)

lemma invariant_pc_change:
  assumes inv: "locking_invariant c"
    and keep: "holds_lock p \<Longrightarrow> lock_owner c = Some t"
    and cr: "p = Create \<Longrightarrow> instance_ref c = None"
    and se: "p = Init \<or> p = Release \<or> p = Return \<Longrightarrow> instance_ref c \<noteq> None"
    and dn: "\<And>r. p = Done r \<Longrightarrow> instance_ref c = Some r"
  shows "locking_invariant (c\<lparr>pcs := (pcs c)(t := p)\<rparr>)"
proof -
  from inv have i1: "instance_ref c = None \<and> made c = 0 \<or> instance_ref c = Some 0 \<and> made c = 1"
    and i2: "\<And>u. holds_lock (pcs c u) \<Longrightarrow> lock_owner c = Some u"
    and i3: "\<And>u. pcs c u = Create \<Longrightarrow> instance_ref c = None"
    and i4: "\<And>u. pcs c u = Init \<or> pcs c u = Release \<or> pcs c u = Return \<Longrightarrow> instance_ref c \<noteq> None"
    and i5: "\<And>u r. pcs c u = Done r \<Longrightarrow> instance_ref c = Some r"
    unfolding locking_invariant_def by blast+
  show ?thesis
    unfolding locking_invariant_def
  proof (intro conjI allI impI)
    show "instance_ref (c\<lparr>pcs := (pcs c)(t := p)\<rparr>) = None \<and> made (c\<lparr>pcs := (pcs c)(t := p)\<rparr>) = 0 \<or>
          instance_ref (c\<lparr>pcs := (pcs c)(t := p)\<rparr>) = Some 0 \<and> made (c\<lparr>pcs := (pcs c)(t := p)\<rparr>) = 1"
      using i1 by simp
  next
    fix u assume "holds_lock (pcs (c\<lparr>pcs := (pcs c)(t := p)\<rparr>) u)"
    then show "lock_owner (c\<lparr>pcs := (pcs c)(t := p)\<rparr>) = Some u"
      using keep i2 [of u] by (cases "u = t") simp_all
  next
    fix u assume "pcs (c\<lparr>pcs := (pcs c)(t := p)\<rparr>) u = Create"
    then show "instance_ref (c\<lparr>pcs := (pcs c)(t := p)\<rparr>) = None"
      using cr i3 [of u] by (cases "u = t") simp_all
  next
    fix u assume "pcs (c\<lparr>pcs := (pcs c)(t := p)\<rparr>) u = Init \<or> pcs (c\<lparr>pcs := (pcs c)(t := p)\<rparr>) u = Release \<or>
        pcs (c\<lparr>pcs := (pcs c)(t := p)\<rparr>) u = Return"
    then show "instance_ref (c\<lparr>pcs := (pcs c)(t := p)\<rparr>) \<noteq> None"
      using se i4 [of u] by (cases "u = t") simp_all
  next
    fix u r assume "pcs (c\<lparr>pcs := (pcs c)(t := p)\<rparr>) u = Done r"
    then show "instance_ref (c\<lparr>pcs := (pcs c)(t := p)\<rparr>) = Some r"
      using dn [of r] i5 [of u r] by (cases "u = t") simp_all
  qed
qed

lemma invariant_parts:
  assumes "locking_invariant c"
  shows "instance_ref c = None \<and> made c = 0 \<or> instance_ref c = Some 0 \<and> made c = 1"
    and "\<And>u. holds_lock (pcs c u) \<Longrightarrow> lock_owner c = Some u"
    and "\<And>u. pcs c u = Create \<Longrightarrow> instance_ref c = None"
    and "\<And>u. pcs c u = Init \<or> pcs c u = Release \<or> pcs c u = Return \<Longrightarrow> instance_ref c \<noteq> None"
    and "\<And>u r. pcs c u = Done r \<Longrightarrow> instance_ref c = Some r"
  using assms unfolding locking_invariant_def by blast+

lemma invariant_step:
  "thread_step c c' \<Longrightarrow> locking_invariant c \<Longrightarrow> locking_invariant c'"
proof (induction rule: thread_step.induct)
  case (call c t r)
  then show ?case by (intro invariant_pc_change) (simp_all add: holds_lock_def)
next
  case (check1_unset c t)
  then show ?case by (intro invariant_pc_change) (simp_all add: holds_lock_def)
next
  case (check1_set c t r)
  then show ?case by (intro invariant_pc_change) (simp_all add: holds_lock_def)
next
  case (check2_unset c t)
  note ip = invariant_parts [OF check2_unset(3)]
  have "lock_owner c = Some t" using ip(2) [of t] check2_unset(1) by (simp add: holds_lock_def)
  with check2_unset show ?case by (intro invariant_pc_change) (simp_all add: holds_lock_def)
next
  case (check2_set c t r)
  note ip = invariant_parts [OF check2_set(3)]
  have "lock_owner c = Some t" using ip(2) [of t] check2_set(1) by (simp add: holds_lock_def)
  with check2_set show ?case by (intro invariant_pc_change) (simp_all add: holds_lock_def)
next
  case (init c t)
  note ip = invariant_parts [OF init(2)]
  have "lock_owner c = Some t" using ip(2) [of t] init(1) by (simp add: holds_lock_def)
  moreover have "instance_ref c \<noteq> None" using ip(4) [of t] init(1) by simp
  ultimately show ?case using init by (intro invariant_pc_change) (simp_all add: holds_lock_def)
next
  case (return c t r)
  then show ?case by (intro invariant_pc_change) (simp_all add: holds_lock_def)
next
  case (acquire c t)
  note ip = invariant_parts [OF acquire(3)]
  have nl: "\<not> holds_lock (pcs c u)" for u using ip(2) [of u] acquire(2) by auto
  show ?case
    unfolding locking_invariant_def
  proof (intro conjI allI impI)
    show "instance_ref (c\<lparr>lock_owner := Some t, pcs := (pcs c)(t := Check2)\<rparr>) = None \<and>
          made (c\<lparr>lock_owner := Some t, pcs := (pcs c)(t := Check2)\<rparr>) = 0 \<or>
          instance_ref (c\<lparr>lock_owner := Some t, pcs := (pcs c)(t := Check2)\<rparr>) = Some 0 \<and>
          made (c\<lparr>lock_owner := Some t, pcs := (pcs c)(t := Check2)\<rparr>) = 1"
      using ip(1) by simp
  next
    fix u assume "holds_lock (pcs (c\<lparr>lock_owner := Some t, pcs := (pcs c)(t := Check2)\<rparr>) u)"
    then show "lock_owner (c\<lparr>lock_owner := Some t, pcs := (pcs c)(t := Check2)\<rparr>) = Some u"
      using nl [of u] by (cases "u = t") simp_all
  next
    fix u assume "pcs (c\<lparr>lock_owner := Some t, pcs := (pcs c)(t := Check2)\<rparr>) u = Create"
    then show "instance_ref (c\<lparr>lock_owner := Some t, pcs := (pcs c)(t := Check2)\<rparr>) = None"
      using ip(3) [of u] by (cases "u = t") simp_all
  next
    fix u assume "pcs (c\<lparr>lock_owner := Some t, pcs := (pcs c)(t := Check2)\<rparr>) u = Init \<or>
        pcs (c\<lparr>lock_owner := Some t, pcs := (pcs c)(t := Check2)\<rparr>) u = Release \<or>
        pcs (c\<lparr>lock_owner := Some t, pcs := (pcs c)(t := Check2)\<rparr>) u = Return"
    then show "instance_ref (c\<lparr>lock_owner := Some t, pcs := (pcs c)(t := Check2)\<rparr>) \<noteq> None"
      using ip(4) [of u] by (cases "u = t") simp_all
  next
    fix u r assume "pcs (c\<lparr>lock_owner := Some t, pcs := (pcs c)(t := Check2)\<rparr>) u = Done r"
    then show "instance_ref (c\<lparr>lock_owner := Some t, pcs := (pcs c)(t := Check2)\<rparr>) = Some r"
      using ip(5) [of u r] by (cases "u = t") simp_all
  qed
next
  case (release c t)
  note ip = invariant_parts [OF release(2)]
  have lo: "lock_owner c = Some t" using ip(2) [of t] release(1) by (simp add: holds_lock_def)
  have nl: "u \<noteq> t \<Longrightarrow> \<not> holds_lock (pcs c u)" for u using ip(2) [of u] lo by auto
  have ne: "instance_ref c \<noteq> None" using ip(4) [of t] release(1) by simp
  let ?c' = "c\<lparr>lock_owner := None, pcs := (pcs c)(t := Return)\<rparr>"
  show ?case
    unfolding locking_invariant_def
  proof (intro conjI allI impI)
    show "instance_ref ?c' = None \<and> made ?c' = 0 \<or> instance_ref ?c' = Some 0 \<and> made ?c' = 1"
      using ip(1) by simp
  next
    fix u assume "holds_lock (pcs ?c' u)"
    then show "lock_owner ?c' = Some u"
      using nl [of u] by (cases "u = t") (simp_all add: holds_lock_def)
  next
    fix u assume "pcs ?c' u = Create"
    then show "instance_ref ?c' = None"
      using ip(3) [of u] by (cases "u = t") simp_all
  next
    fix u assume "pcs ?c' u = Init \<or> pcs ?c' u = Release \<or> pcs ?c' u = Return"
    then show "instance_ref ?c' \<noteq> None"
      using ip(4) [of u] ne by (cases "u = t") simp_all
  next
    fix u r assume "pcs ?c' u = Done r"
    then show "instance_ref ?c' = Some r"
      using ip(5) [of u r] by (cases "u = t") simp_all
  qed
next
  case (create c t)
  note ip = invariant_parts [OF create(2)]
  have lo: "lock_owner c = Some t" using ip(2) [of t] create(1) by (simp add: holds_lock_def)
  have n: "instance_ref c = None" using ip(3) [of t] create(1) by simp
  with ip(1) have m: "made c = 0" by auto
  let ?c' = "c\<lparr>instance_ref := Some (made c), made := made c + 1, pcs := (pcs c)(t := Init)\<rparr>"
  show ?case
    unfolding locking_invariant_def
  proof (intro conjI allI impI)
    show "instance_ref ?c' = None \<and> made ?c' = 0 \<or> instance_ref ?c' = Some 0 \<and> made ?c' = 1"
      using m by simp
  next
    fix u assume "holds_lock (pcs ?c' u)"
    then show "lock_owner ?c' = Some u"
      using ip(2) [of u] lo by (cases "u = t") simp_all
  next
    fix u assume "pcs ?c' u = Create"
    then have "u \<noteq> t" by auto
    with \<open>pcs ?c' u = Create\<close> have "holds_lock (pcs c u)" by (simp add: holds_lock_def)
    with ip(2) [of u] lo \<open>u \<noteq> t\<close> show "instance_ref ?c' = None" by simp
  next
    fix u assume "pcs ?c' u = Init \<or> pcs ?c' u = Release \<or> pcs ?c' u = Return"
    show "instance_ref ?c' \<noteq> None" by simp
  next
    fix u r assume d: "pcs ?c' u = Done r"
    then have "u \<noteq> t" by auto
    with d have "pcs c u = Done r" by simp
    with ip(5) [of u r] n show "instance_ref ?c' = Some r" by simp
  qed
qed

lemma reachable_invariant: "reachable c \<Longrightarrow> locking_invariant c"
  by (induction rule: reachable.induct) (auto intro: invariant_initial invariant_step)

lemma reachable_single:
  "reachable c \<Longrightarrow> made c \<le> 1 \<and> (\<forall>t r. pcs c t = Done r \<longrightarrow> r = 0)"
  using reachable_invariant [of c] by (auto simp: locking_invariant_def)

lemma reachable_first_call_done: "reachable first_call_done"
proof -
  let ?c = "\<lambda>i m l p. \<lparr>instance_ref = i, made = m, lock_owner = l, pcs = (\<lambda>t. Idle)(0 := p)\<rparr>"
  have r0: "reachable (?c None 0 None Idle)"
    using reachable.start by (simp add: shared_initial_def fun_upd_idem)
  have "thread_step (?c None 0 None Idle) (?c None 0 None Check1)"
    using thread_step.call [of "?c None 0 None Idle" 0] by simp
  with r0 have r1: "reachable (?c None 0 None Check1)" by (rule reachable.step)
  have "thread_step (?c None 0 None Check1) (?c None 0 None Acquire)"
    using thread_step.check1_unset [of "?c None 0 None Check1" 0] by simp
  with r1 have r2: "reachable (?c None 0 None Acquire)" by (rule reachable.step)
  have "thread_step (?c None 0 None Acquire) (?c None 0 (Some 0) Check2)"
    using thread_step.acquire [of "?c None 0 None Acquire" 0] by simp
  with r2 have r3: "reachable (?c None 0 (Some 0) Check2)" by (rule reachable.step)
  have "thread_step (?c None 0 (Some 0) Check2) (?c None 0 (Some 0) Create)"
    using thread_step.check2_unset [of "?c None 0 (Some 0) Check2" 0] by simp
  with r3 have r4: "reachable (?c None 0 (Some 0) Create)" by (rule reachable.step)
  have "thread_step (?c None 0 (Some 0) Create) (?c (Some 0) 1 (Some 0) Init)"
    using thread_step.create [of "?c None 0 (Some 0) Create" 0] by simp
  with r4 have r5: "reachable (?c (Some 0) 1 (Some 0) Init)" by (rule reachable.step)
  have "thread_step (?c (Some 0) 1 (Some 0) Init) (?c (Some 0) 1 (Some 0) Release)"
    using thread_step.init [of "?c (Some 0) 1 (Some 0) Init" 0] by simp
  with r5 have r6: "reachable (?c (Some 0) 1 (Some 0) Release)" by (rule reachable.step)
  have "thread_step (?c (Some 0) 1 (Some 0) Release) (?c (Some 0) 1 None Return)"
    using thread_step.release [of "?c (Some 0) 1 (Some 0) Release" 0] by simp
  with r6 have r7: "reachable (?c (Some 0) 1 None Return)" by (rule reachable.step)
  have "thread_step (?c (Some 0) 1 None Return) (?c (Some 0) 1 None (Done 0))"
    using thread_step.return [of "?c (Some 0) 1 None Return" 0 0] by simp
  with r7 have "reachable (?c (Some 0) 1 None (Done 0))" by (rule reachable.step)
  then show ?thesis by (simp add: first_call_done_def)
qed

lemma faulty_exporter_state_facts:
  "wf_state faulty_exporter_state"
  "registry_processors faulty_exporter_state = [0, 1]"
  "shutdown_calls faulty_exporter_state = []"
  "processors faulty_exporter_state =
     [\<lparr>span_exporter = OtherExporter ''faulty'' (Some (OtherException ''RuntimeError'')), shut_down = False\<rparr>,
      \<lparr>span_exporter = ConsoleSpanExporter, shut_down = False\<rparr>]"
proof -
  note e = add_span_exporter_effect [OF wf_initial_state,
      of "OtherExporter ''faulty'' (Some (OtherException ''RuntimeError''))"]
  note e2 = add_span_exporter_effect [OF e(5), of ConsoleSpanExporter]
  have i: "processors initial_state = []" "registry_processors initial_state = []"
    "shutdown_calls initial_state = []"
    by (simp_all add: initial_state_def registry_processors_def)
  show "wf_state faulty_exporter_state" using e2(5) by (simp add: faulty_exporter_state_def)
  show "registry_processors faulty_exporter_state = [0, 1]"
    by (simp add: faulty_exporter_state_def e2(3) e(2,3) i)
  show "shutdown_calls faulty_exporter_state = []"
    by (simp add: faulty_exporter_state_def e2(6) e(6) i)
  show "processors faulty_exporter_state =
     [\<lparr>span_exporter = OtherExporter ''faulty'' (Some (OtherException ''RuntimeError'')), shut_down = False\<rparr>,
      \<lparr>span_exporter = ConsoleSpanExporter, shut_down = False\<rparr>]"
    by (simp add: faulty_exporter_state_def e2(2) e(2) i)
qed

lemma two_exporters_state_processors:
  "processors two_exporters_state =
     [\<lparr>span_exporter = ConsoleSpanExporter, shut_down = False\<rparr>,
      \<lparr>span_exporter = OtherExporter ''otlp'' None, shut_down = False\<rparr>]"
proof -
  note e = add_span_exporter_effect [OF wf_initial_state, of ConsoleSpanExporter]
  note e2 = add_span_exporter_effect [OF e(5), of "OtherExporter ''otlp'' None"]
  have i: "processors initial_state = []" by (simp add: initial_state_def)
  show ?thesis by (simp add: two_exporters_state_def e2(2) e(2) i)
qed

lemma last_take_Suc: "i < length xs \<Longrightarrow> last (take (Suc i) xs) = xs ! i"
  by (simp add: take_Suc_conv_app_nth)

lemma registry_bound:
  "wf_state st \<Longrightarrow> p \<in> set (reached R (registry_processors st)) \<Longrightarrow> p < length (processors st)"
  using set_mono_prefix [OF reached_prefix [of R "registry_processors st"]]
  by (auto simp: wf_state_iff)

lemma get_instance_fresh:
  "cls_instance st = None \<Longrightarrow>
   tracers (fst (get_instance st)) = tracers st @ [\<lparr>span_processors = []\<rparr>] \<and>
   cls_instance (fst (get_instance st)) = Some (length (tracers st)) \<and>
   snd (get_instance st) = length (tracers st)"
  by (simp add: get_instance_def set_tracer_provider_def Let_def split: option.splits)

text \<open>
  Claim C5. Whatever operations of the class have run, at most one \<open>OpenTelemetryTracer\<close>
  object has been made. \<open>get_instance\<close> and the constructor both return the object that the
  class attribute names after the call, the same one as the first call returned, and
  exactly one object exists after a call. The object is made lazily: while the class
  attribute is unset no object exists, and the call that finds it unset makes one object
  with an empty processor list; a call that finds it set changes nothing, so a call made
  after a call returns the same object and makes none. Under threads that interleave line
  by line inside \<open>get_instance\<close>, in every configuration they can reach at most one object
  has been made and every call that has returned has returned that object.
\<close>

theorem single_tracer_instance:
  "wf_state (snd w) \<Longrightarrow>
   length (tracers (snd (run rt w ops))) \<le> 1 \<and>
   snd (get_instance (snd (run rt w ops))) = snd (get_instance (snd w)) \<and>
   snd (new_tracer (snd (run rt w ops))) = snd (get_instance (snd w)) \<and>
   length (tracers (fst (get_instance (snd (run rt w ops))))) = 1 \<and>
   length (tracers (fst (new_tracer (snd (run rt w ops))))) = 1 \<and>
   cls_instance (fst (get_instance (snd (run rt w ops)))) = Some (snd (get_instance (snd (run rt w ops)))) \<and>
   cls_instance (fst (new_tracer (snd (run rt w ops)))) = Some (snd (new_tracer (snd (run rt w ops)))) \<and>
   snd (new_tracer (snd (run rt w ops))) < length (tracers (fst (new_tracer (snd (run rt w ops))))) \<and>
   new_tracer (snd (run rt w ops)) = get_instance (snd (run rt w ops)) \<and>
   (cls_instance (snd (run rt w ops)) = None \<longrightarrow>
      tracers (snd (run rt w ops)) = [] \<and>
      tracers (fst (get_instance (snd (run rt w ops)))) = [\<lparr>span_processors = []\<rparr>] \<and>
      tracers (fst (new_tracer (snd (run rt w ops)))) = [\<lparr>span_processors = []\<rparr>]) \<and>
   (cls_instance (snd (run rt w ops)) \<noteq> None \<longrightarrow>
      fst (get_instance (snd (run rt w ops))) = snd (run rt w ops) \<and>
      fst (new_tracer (snd (run rt w ops))) = snd (run rt w ops)) \<and>
   get_instance (fst (get_instance (snd (run rt w ops)))) = get_instance (snd (run rt w ops)) \<and>
   new_tracer (fst (new_tracer (snd (run rt w ops)))) = new_tracer (snd (run rt w ops)) \<and>
   (\<forall>c. reachable c \<longrightarrow> made c \<le> 1 \<and> (\<forall>t r. pcs c t = Done r \<longrightarrow> r = 0))"
proof -
  assume wf: "wf_state (snd w)"
  define st where "st = snd (run rt w ops)"
  have wf': "wf_state st" using run_wf [OF wf] by (simp add: st_def)
  note g = get_instance_wf [OF wf']
  have 1: "length (tracers st) \<le> 1" using wf' by (auto simp: wf_state_iff)
  have 2: "snd (get_instance st) = snd (get_instance (snd w))"
    using get_instance_wf(2) [OF wf] g(2) by simp
  have 4: "length (tracers (fst (get_instance st))) = 1" by (rule g(4))
  have 5: "cls_instance (fst (get_instance st)) = Some (snd (get_instance st))"
    using g(2,3) by simp
  have 6: "snd (get_instance st) < length (tracers (fst (get_instance st)))"
    using g(2,4) by simp
  have 7: "cls_instance st = None \<longrightarrow>
      tracers st = [] \<and> tracers (fst (get_instance st)) = [\<lparr>span_processors = []\<rparr>]"
  proof
    assume n: "cls_instance st = None"
    then have e: "tracers st = []" using wf' by (auto simp: wf_state_iff)
    with get_instance_fresh [OF n]
    show "tracers st = [] \<and> tracers (fst (get_instance st)) = [\<lparr>span_processors = []\<rparr>]" by simp
  qed
  have 8: "cls_instance st \<noteq> None \<longrightarrow> fst (get_instance st) = st"
    by (auto simp: get_instance_some)
  have 9: "get_instance (fst (get_instance st)) = get_instance st"
    using get_instance_twice [OF wf'] get_instance_pair [OF wf'] by simp
  have 10: "\<forall>c. reachable c \<longrightarrow> made c \<le> 1 \<and> (\<forall>t r. pcs c t = Done r \<longrightarrow> r = 0)"
    using reachable_single by blast
  from 1 2 4 5 6 7 8 9 10 show ?thesis
    unfolding st_def [symmetric] new_tracer_def by simp
qed

theorem single_tracer_instance_witness:
  "wf_state initial_state \<and> tracers initial_state = [] \<and>
   cls_instance (snd (run example_runtime (empty_os, initial_state) [])) = None \<and>
   length (tracers (snd (run example_runtime (empty_os, initial_state)
      [GetInstance, AddConsoleSpanExporter, NewTracer, Close]))) \<le> 1 \<and>
   snd (get_instance (snd (run example_runtime (empty_os, initial_state)
      [GetInstance, AddConsoleSpanExporter, NewTracer, Close]))) = snd (get_instance initial_state) \<and>
   tracers (fst (new_tracer initial_state)) = [\<lparr>span_processors = []\<rparr>] \<and>
   cls_instance (fst (new_tracer initial_state)) = Some (snd (new_tracer initial_state)) \<and>
   new_tracer (fst (new_tracer initial_state)) = new_tracer initial_state \<and>
   reachable first_call_done \<and> made first_call_done \<le> 1 \<and> pcs first_call_done 0 = Done 0"
proof -
  have g: "tracers initial_state = []"
    "cls_instance (snd (run example_runtime (empty_os, initial_state) [])) = None"
    "snd (run example_runtime (empty_os, initial_state) []) = initial_state"
    by (simp_all add: initial_state_def run_def)
  have d: "pcs first_call_done 0 = Done 0" by (simp add: first_call_done_def)
  note t = single_tracer_instance [of "(empty_os, initial_state)" example_runtime
      "[GetInstance, AddConsoleSpanExporter, NewTracer, Close]"]
  have w0: "wf_state (snd (empty_os, initial_state))" by (simp add: wf_initial_state)
  have n0: "cls_instance initial_state = None" by (simp add: initial_state_def)
  note t0 = single_tracer_instance [of "(empty_os, initial_state)" example_runtime "[]", OF w0,
      unfolded g(3)]
  from t wf_initial_state reachable_first_call_done have m: "made first_call_done \<le> 1" by simp
  from t wf_initial_state have a: "length (tracers (snd (run example_runtime (empty_os, initial_state)
      [GetInstance, AddConsoleSpanExporter, NewTracer, Close]))) \<le> 1 \<and>
   snd (get_instance (snd (run example_runtime (empty_os, initial_state)
      [GetInstance, AddConsoleSpanExporter, NewTracer, Close]))) = snd (get_instance initial_state)"
    by simp
  from t0 n0 have b: "tracers (fst (new_tracer initial_state)) = [\<lparr>span_processors = []\<rparr>] \<and>
   cls_instance (fst (new_tracer initial_state)) = Some (snd (new_tracer initial_state)) \<and>
   new_tracer (fst (new_tracer initial_state)) = new_tracer initial_state"
    by blast
  from a b wf_initial_state g(1,2) reachable_first_call_done m d show ?thesis by blast
qed

text \<open>
  Claim C6. \<open>add_span_exporter\<close> makes a new \<open>BatchSpanProcessor\<close> around the exporter, appends
  it to the registry's list, which grows by exactly one, and registers it with the
  tracer provider; a second call adds a second processor of its own after the first.
\<close>

theorem add_span_exporter_registers:
  "wf_state st \<Longrightarrow>
   snd (add_span_exporter st ex) = Inr () \<and>
   processors (fst (add_span_exporter st ex)) =
     processors st @ [\<lparr>span_exporter = ex, shut_down = False\<rparr>] \<and>
   registry_processors (fst (add_span_exporter st ex)) =
     registry_processors st @ [length (processors st)] \<and>
   length (registry_processors (fst (add_span_exporter st ex))) =
     length (registry_processors st) + 1 \<and>
   length (processors st) \<notin> set (registry_processors st) \<and>
   provider_processors (fst (add_span_exporter st ex)) =
     provider_processors st @ [length (processors st)] \<and>
   registry_processors (fst (add_span_exporter (fst (add_span_exporter st ex)) ex2)) =
     registry_processors st @ [length (processors st), length (processors st) + 1]"
proof -
  assume wf: "wf_state st"
  note e = add_span_exporter_effect [OF wf, of ex]
  note e2 = add_span_exporter_effect [OF e(5), of ex2]
  have fresh: "length (processors st) \<notin> set (registry_processors st)"
    using wf by (auto simp: wf_state_iff)
  have two: "registry_processors (fst (add_span_exporter (fst (add_span_exporter st ex)) ex2)) =
     registry_processors st @ [length (processors st), length (processors st) + 1]"
    by (simp add: e2(3) e(2,3))
  from e(1,2,3,4) fresh two show ?thesis by simp
qed

theorem add_span_exporter_registers_witness:
  "wf_state initial_state \<and>
   snd (add_span_exporter initial_state ConsoleSpanExporter) = Inr () \<and>
   processors (fst (add_span_exporter initial_state ConsoleSpanExporter)) =
     [\<lparr>span_exporter = ConsoleSpanExporter, shut_down = False\<rparr>] \<and>
   registry_processors (fst (add_span_exporter initial_state ConsoleSpanExporter)) = [0] \<and>
   provider_processors (fst (add_span_exporter initial_state ConsoleSpanExporter)) = [0] \<and>
   registry_processors (fst (add_span_exporter (fst (add_span_exporter initial_state ConsoleSpanExporter))
      (OtherExporter ''otlp'' None))) = [0, 1]"
proof -
  have i: "processors initial_state = []" "registry_processors initial_state = []"
    "provider_processors initial_state = []"
    by (simp_all add: initial_state_def registry_processors_def provider_processors_def)
  from add_span_exporter_registers [OF wf_initial_state, of ConsoleSpanExporter "OtherExporter ''otlp'' None"]
    wf_initial_state
  show ?thesis by (simp add: i)
qed

text \<open>
  Claim C7, as stated: \<open>close\<close> calls \<open>shutdown\<close> on every processor, none skipped. The loop
  has no handler, and \<open>add_span_exporter\<close> takes any exporter: with a first exporter whose
  \<open>shutdown\<close> raises \<open>RuntimeError\<close>, the exception leaves \<open>close\<close> after the first processor and
  \<open>shutdown\<close> is never called on the second.
\<close>

theorem close_skips_after_raise_counterexample:
  "registry_processors faulty_exporter_state = [0, 1] \<and>
   snd (close faulty_exporter_state) = Inl (OtherException ''RuntimeError'') \<and>
   shutdown_calls (fst (close faulty_exporter_state)) = [0] \<and>
   \<not> shut_down (processors (fst (close faulty_exporter_state)) ! 1)"
  by code_simp

text \<open>
  Claim C7, amended. \<open>close\<close> calls \<open>shutdown\<close> on the processors of the registry's list in
  the order in which they were registered, up to and including the first whose \<open>shutdown\<close>
  raises; that exception leaves \<open>close\<close>, and the processors after it are skipped and stay
  as they were. When no \<open>shutdown\<close> raises, \<open>close\<close> returns and has called \<open>shutdown\<close> on every
  processor of the list, in order, each once.
\<close>

theorem close_shuts_down_up_to_first_raise:
  "wf_state st \<Longrightarrow>
   shutdown_calls (fst (close st)) =
     shutdown_calls st @ reached (shutdown_raises st) (registry_processors st) \<and>
   prefix (reached (shutdown_raises st) (registry_processors st)) (registry_processors st) \<and>
   (\<forall>p \<in> set (reached (shutdown_raises st) (registry_processors st)).
      shut_down (processors (fst (close st)) ! p)) \<and>
   (\<forall>p < length (processors st). p \<notin> set (reached (shutdown_raises st) (registry_processors st)) \<longrightarrow>
      shut_down (processors (fst (close st)) ! p) = shut_down (processors st ! p)) \<and>
   ((\<forall>p \<in> set (registry_processors st). \<not> shutdown_raises st p) \<longrightarrow>
      snd (close st) = Inr () \<and>
      shutdown_calls (fst (close st)) = shutdown_calls st @ registry_processors st \<and>
      (\<forall>p \<in> set (registry_processors st). shut_down (processors (fst (close st)) ! p))) \<and>
   (\<forall>i e. i < length (registry_processors st) \<and>
        exporter_shutdown (span_exporter (processors st ! (registry_processors st ! i))) = Some e \<and>
        (\<forall>j < i. \<not> shutdown_raises st (registry_processors st ! j)) \<longrightarrow>
      snd (close st) = Inl e \<and>
      shutdown_calls (fst (close st)) = shutdown_calls st @ take (Suc i) (registry_processors st))"
proof -
  assume wf: "wf_state st"
  define rp where "rp = registry_processors st"
  define R where "R = shutdown_raises st"
  note c = close_effect [OF wf, folded rp_def R_def]
  have bound: "p \<in> set (reached R rp) \<Longrightarrow> p < length (processors st)" for p
    using registry_bound [OF wf, of p R] by (simp add: rp_def)
  have 1: "shutdown_calls (fst (close st)) = shutdown_calls st @ reached R rp" by (rule c(1))
  have 2: "prefix (reached R rp) rp" by (rule reached_prefix)
  have 3: "\<forall>p \<in> set (reached R rp). shut_down (processors (fst (close st)) ! p)"
    using c(5) bound by blast
  have 4: "\<forall>p < length (processors st). p \<notin> set (reached R rp) \<longrightarrow>
      shut_down (processors (fst (close st)) ! p) = shut_down (processors st ! p)"
    using c(5) by blast
  have 5: "(\<forall>p \<in> set rp. \<not> R p) \<longrightarrow>
      snd (close st) = Inr () \<and> shutdown_calls (fst (close st)) = shutdown_calls st @ rp \<and>
      (\<forall>p \<in> set rp. shut_down (processors (fst (close st)) ! p))"
  proof
    assume quiet: "\<forall>p \<in> set rp. \<not> R p"
    then have all: "reached R rp = rp" by (rule reached_all)
    have "snd (close st) = Inr ()"
    proof (cases "rp = []")
      case True
      then show ?thesis by (simp add: c(7))
    next
      case False
      then have "last rp \<in> set rp" by simp
      with quiet have "\<not> R (last rp)" by blast
      then have "exporter_shutdown (span_exporter (processors st ! last rp)) = None"
        by (simp add: R_def shutdown_raises_def)
      with False show ?thesis by (simp add: c(7) all)
    qed
    with 1 3 show "snd (close st) = Inr () \<and> shutdown_calls (fst (close st)) = shutdown_calls st @ rp \<and>
      (\<forall>p \<in> set rp. shut_down (processors (fst (close st)) ! p))"
      by (simp add: all)
  qed
  have 6: "\<forall>i e. i < length rp \<and> exporter_shutdown (span_exporter (processors st ! (rp ! i))) = Some e \<and>
        (\<forall>j < i. \<not> R (rp ! j)) \<longrightarrow>
      snd (close st) = Inl e \<and> shutdown_calls (fst (close st)) = shutdown_calls st @ take (Suc i) rp"
  proof (intro allI impI)
    fix i e
    assume h: "i < length rp \<and> exporter_shutdown (span_exporter (processors st ! (rp ! i))) = Some e \<and>
        (\<forall>j < i. \<not> R (rp ! j))"
    then have "R (rp ! i)" by (simp add: R_def shutdown_raises_def)
    with h have t: "reached R rp = take (Suc i) rp" using reached_first [of i rp R] by blast
    from h have ne: "rp \<noteq> []" by auto
    from h have "last (take (Suc i) rp) = rp ! i" using last_take_Suc by blast
    with h ne have "snd (close st) = Inl e" by (simp add: c(7) t)
    with 1 t show "snd (close st) = Inl e \<and>
        shutdown_calls (fst (close st)) = shutdown_calls st @ take (Suc i) rp" by simp
  qed
  from 1 2 3 4 5 6 show ?thesis unfolding rp_def R_def by blast
qed

theorem close_shuts_down_up_to_first_raise_witness:
  "wf_state two_exporters_state \<and>
   registry_processors two_exporters_state = [0, 1] \<and>
   \<not> shutdown_raises two_exporters_state 0 \<and> \<not> shutdown_raises two_exporters_state 1 \<and>
   snd (close two_exporters_state) = Inr () \<and>
   shutdown_calls (fst (close two_exporters_state)) = [0, 1] \<and>
   shut_down (processors (fst (close two_exporters_state)) ! 0) \<and>
   shut_down (processors (fst (close two_exporters_state)) ! 1) \<and>
   wf_state faulty_exporter_state \<and>
   exporter_shutdown (span_exporter (processors faulty_exporter_state !
       (registry_processors faulty_exporter_state ! 0))) = Some (OtherException ''RuntimeError'') \<and>
   snd (close faulty_exporter_state) = Inl (OtherException ''RuntimeError'') \<and>
   shutdown_calls (fst (close faulty_exporter_state)) = [0]"
proof -
  have q: "\<forall>p \<in> set (registry_processors two_exporters_state). \<not> shutdown_raises two_exporters_state p"
    by (simp add: two_exporters_state_facts two_exporters_state_processors shutdown_raises_def)
  have r: "exporter_shutdown (span_exporter (processors faulty_exporter_state !
       (registry_processors faulty_exporter_state ! 0))) = Some (OtherException ''RuntimeError'')"
    by (simp add: faulty_exporter_state_facts)
  have l: "0 < length (registry_processors faulty_exporter_state)"
    by (simp add: faulty_exporter_state_facts)
  from close_shuts_down_up_to_first_raise [OF two_exporters_state_facts(1)] q
  have a: "snd (close two_exporters_state) = Inr () \<and>
      shutdown_calls (fst (close two_exporters_state)) = [0, 1] \<and>
      shut_down (processors (fst (close two_exporters_state)) ! 0) \<and>
      shut_down (processors (fst (close two_exporters_state)) ! 1)"
    by (simp add: two_exporters_state_facts)
  from close_shuts_down_up_to_first_raise [OF faulty_exporter_state_facts(1)] r l
  have "snd (close faulty_exporter_state) = Inl (OtherException ''RuntimeError'') \<and>
      shutdown_calls (fst (close faulty_exporter_state)) =
        shutdown_calls faulty_exporter_state @ take (Suc 0) (registry_processors faulty_exporter_state)"
    by blast
  then have b: "snd (close faulty_exporter_state) = Inl (OtherException ''RuntimeError'') \<and>
      shutdown_calls (fst (close faulty_exporter_state)) = [0]"
    by (simp add: faulty_exporter_state_facts)
  have q': "\<not> shutdown_raises two_exporters_state 0 \<and> \<not> shutdown_raises two_exporters_state 1"
    using q by (simp add: two_exporters_state_facts)
  from a b q' r two_exporters_state_facts(1,2) faulty_exporter_state_facts(1) show ?thesis by blast
qed

text \<open>
  Claim C8, as stated: for every key and value the coerced value is stored. When the
  coercion raises, nothing is stored: for a value of a class \<open>Broken\<close> that \<open>json.dumps\<close>
  rejects and whose \<open>__str__\<close> raises \<open>RuntimeError\<close>, the exception leaves \<open>set_attribute\<close> and
  the current span has no attribute under the key.
\<close>

theorem set_attribute_raises_counterexample:
  "get_current_span one_span_state = Some 0 \<and>
   snd (set_attribute broken_str_runtime one_span_state ''k'' (PObject ''Broken'' [])) =
     Inl (OtherException ''RuntimeError'') \<and>
   attributes (spans (fst (set_attribute broken_str_runtime one_span_state ''k'' (PObject ''Broken'' []))) ! 0)
     ''k'' = None"
  by (simp add: one_span_state_def start_as_current_span_def get_instance_def initial_state_def
      set_tracer_provider_def get_current_span_def Let_def set_attribute_def
      generate_attribute_value_def serialize_or_str_def broken_str_runtime_def
      example_runtime_def example_dumps_def)

text \<open>
  Claim C8, amended. \<open>set_attribute\<close> coerces the value first. When the coercion raises,
  that exception leaves \<open>set_attribute\<close> and no span changes. When it returns, the current
  span's own \<open>set_attribute\<close> is called with the key and the coerced value and \<open>set_attribute\<close>
  returns: the current span becomes what that call leaves (whether and in what form the
  value is kept is the SDK's), every other span stays as it is, and with no current span
  no span changes. The stack of current spans is left alone in every case.
\<close>

theorem set_attribute_coerces_then_sets:
  "wf_state st \<Longrightarrow>
   (\<forall>a. generate_attribute_value rt v = Inr a \<longrightarrow>
      snd (set_attribute rt st key v) = Inr () \<and>
      (\<forall>sid. get_current_span st = Some sid \<longrightarrow>
         sid < length (spans st) \<and>
         spans (fst (set_attribute rt st key v)) =
           (spans st)[sid := span_set_attribute rt (spans st ! sid) key a] \<and>
         spans (fst (set_attribute rt st key v)) ! sid = span_set_attribute rt (spans st ! sid) key a) \<and>
      (get_current_span st = None \<longrightarrow> spans (fst (set_attribute rt st key v)) = spans st)) \<and>
   (\<forall>e. generate_attribute_value rt v = Inl e \<longrightarrow>
      snd (set_attribute rt st key v) = Inl e \<and> spans (fst (set_attribute rt st key v)) = spans st) \<and>
   current (fst (set_attribute rt st key v)) = current st"
proof -
  assume wf: "wf_state st"
  let ?s = "fst (get_instance st)"
  note u = set_attribute_unfold [OF wf, of rt key v]
  have sp: "spans ?s = spans st" "get_current_span ?s = get_current_span st" "current ?s = current st"
    by (simp_all add: get_instance_frame get_current_span_get_instance)
  have bound: "get_current_span st = Some sid \<Longrightarrow> sid < length (spans st)" for sid
    using wf by (auto simp: wf_state_iff get_current_span_def split: list.splits)
  show ?thesis
  proof (intro conjI allI impI)
    fix a
    assume h: "generate_attribute_value rt v = Inr a"
    then show "snd (set_attribute rt st key v) = Inr ()" by (simp add: u)
    {
      fix sid
      assume c: "get_current_span st = Some sid"
      show "sid < length (spans st)" by (rule bound [OF c])
      show l: "spans (fst (set_attribute rt st key v)) =
           (spans st)[sid := span_set_attribute rt (spans st ! sid) key a]"
        using h c by (simp add: u sp on_current_span_def)
      show "spans (fst (set_attribute rt st key v)) ! sid = span_set_attribute rt (spans st ! sid) key a"
        using bound [OF c] by (simp add: l)
    }
    assume "get_current_span st = None"
    then show "spans (fst (set_attribute rt st key v)) = spans st"
      using h by (simp add: u sp on_current_span_def)
  next
    fix e
    assume h: "generate_attribute_value rt v = Inl e"
    then show "snd (set_attribute rt st key v) = Inl e" by (simp add: u)
    from h show "spans (fst (set_attribute rt st key v)) = spans st" by (simp add: u sp)
  next
    show "current (fst (set_attribute rt st key v)) = current st"
      by (simp add: u sp on_current_span_frame split: sum.splits)
  qed
qed

theorem set_attribute_coerces_then_sets_witness:
  "wf_state one_span_state \<and>
   generate_attribute_value example_runtime (PDict [(PStr ''a'', PInt 1)]) =
     Inr (PStr (''{'' @ [CHR 0x22] @ ''a'' @ [CHR 0x22] @ '': 1}'')) \<and>
   get_current_span one_span_state = Some 0 \<and>
   snd (set_attribute example_runtime one_span_state ''inputs'' (PDict [(PStr ''a'', PInt 1)])) = Inr () \<and>
   attributes (spans (fst (set_attribute example_runtime one_span_state ''inputs'' (PDict [(PStr ''a'', PInt 1)]))) ! 0)
     ''inputs'' = Some (PStr (''{'' @ [CHR 0x22] @ ''a'' @ [CHR 0x22] @ '': 1}'')) \<and>
   generate_attribute_value example_runtime (PTuple [PInt 1, PInt 2]) = Inr (PList [PInt 1, PInt 2]) \<and>
   attributes (spans (fst (set_attribute example_runtime one_span_state ''ids'' (PTuple [PInt 1, PInt 2]))) ! 0)
     ''ids'' = Some (PTuple [PInt 1, PInt 2]) \<and>
   generate_attribute_value broken_str_runtime (PObject ''Broken'' []) = Inl (OtherException ''RuntimeError'') \<and>
   spans (fst (set_attribute broken_str_runtime one_span_state ''inputs'' (PObject ''Broken'' []))) =
     spans one_span_state"
proof -
  let ?v = "PDict [(PStr ''a'', PInt 1)]"
  let ?w = "PTuple [PInt 1, PInt 2]"
  have cw: "generate_attribute_value example_runtime ?w = Inr (PList [PInt 1, PInt 2])"
    by (simp add: generate_attribute_value_def example_runtime_def)
  from set_attribute_coerces_then_sets [OF one_span_state_facts(1), of example_runtime ?w "''ids''"]
    cw one_span_state_facts(2)
  have sw: "spans (fst (set_attribute example_runtime one_span_state ''ids'' ?w)) ! 0 =
        span_set_attribute example_runtime (spans one_span_state ! 0) ''ids'' (PList [PInt 1, PInt 2])"
    by blast
  have "attributes (span_set_attribute example_runtime (spans one_span_state ! 0) ''ids''
      (PList [PInt 1, PInt 2])) ''ids'' = Some ?w"
    by (simp add: one_span_state_facts(3) example_runtime_def example_set_attribute_def homogeneous_def)
  with sw have kw: "attributes (spans (fst (set_attribute example_runtime one_span_state ''ids'' ?w)) ! 0)
      ''ids'' = Some ?w" by simp
  let ?a = "PStr (''{'' @ [CHR 0x22] @ ''a'' @ [CHR 0x22] @ '': 1}'')"
  have b: "generate_attribute_value broken_str_runtime (PObject ''Broken'' []) =
      Inl (OtherException ''RuntimeError'')"
    by (simp add: generate_attribute_value_def serialize_or_str_def broken_str_runtime_def
        example_runtime_def example_dumps_def)
  from set_attribute_coerces_then_sets [OF one_span_state_facts(1), of example_runtime ?v "''inputs''"]
    example_dict one_span_state_facts(2)
  have s: "snd (set_attribute example_runtime one_span_state ''inputs'' ?v) = Inr () \<and>
      spans (fst (set_attribute example_runtime one_span_state ''inputs'' ?v)) ! 0 =
        span_set_attribute example_runtime (spans one_span_state ! 0) ''inputs'' ?a"
    by blast
  have "attributes (span_set_attribute example_runtime (spans one_span_state ! 0) ''inputs'' ?a) ''inputs'' =
      Some ?a"
    by (simp add: one_span_state_facts(3) example_runtime_def example_set_attribute_def)
  with s have k: "attributes (spans (fst (set_attribute example_runtime one_span_state ''inputs'' ?v)) ! 0)
      ''inputs'' = Some ?a" by simp
  from set_attribute_coerces_then_sets [OF one_span_state_facts(1), of broken_str_runtime
      "PObject ''Broken'' []" "''inputs''"] b
  have r: "spans (fst (set_attribute broken_str_runtime one_span_state ''inputs'' (PObject ''Broken'' []))) =
      spans one_span_state" by blast
  from s k r b cw kw example_dict one_span_state_facts(1,2) show ?thesis by blast
qed

text \<open>
  Claim C10, as stated: a second \<open>close\<close> calls \<open>shutdown\<close> on each processor again. With a
  first exporter whose \<open>shutdown\<close> raises, both processors stay registered after \<open>close\<close>, but
  each \<open>close\<close> ends at the first processor: after two of them \<open>shutdown\<close> has been called
  twice on the first processor and never on the second.
\<close>

theorem second_close_skips_counterexample:
  "registry_processors (fst (close faulty_exporter_state)) = [0, 1] \<and>
   shutdown_calls (fst (close (fst (close faulty_exporter_state)))) = [0, 0]"
  by code_simp

text \<open>
  Claim C10, amended. No operation of the class removes a processor from the registry's
  list: the list before an operation, or before a program of operations, is a prefix of
  the list after it, and \<open>close\<close> leaves the list as it is, whether it returns or raises.
  A second \<open>close\<close> therefore goes through the same list again, as far as the first did: up
  to and including the first processor whose \<open>shutdown\<close> raises. When no \<open>shutdown\<close>
  raises, it calls \<open>shutdown\<close> on each processor again.
\<close>

theorem processors_never_removed:
  "wf_state (snd w) \<Longrightarrow>
   prefix (registry_processors (snd w)) (registry_processors (snd (step rt w op))) \<and>
   prefix (registry_processors (snd w)) (registry_processors (snd (run rt w ops))) \<and>
   registry_processors (fst (close (snd w))) = registry_processors (snd w) \<and>
   shutdown_calls (fst (close (fst (close (snd w))))) =
     shutdown_calls (snd w) @ reached (shutdown_raises (snd w)) (registry_processors (snd w)) @
       reached (shutdown_raises (snd w)) (registry_processors (snd w)) \<and>
   ((\<forall>p \<in> set (registry_processors (snd w)). \<not> shutdown_raises (snd w) p) \<longrightarrow>
      shutdown_calls (fst (close (fst (close (snd w))))) =
        shutdown_calls (snd w) @ registry_processors (snd w) @ registry_processors (snd w))"
proof -
  assume wf: "wf_state (snd w)"
  note c = close_effect [OF wf]
  note c2 = close_effect [OF c(4)]
  have twice: "shutdown_calls (fst (close (fst (close (snd w))))) =
     shutdown_calls (snd w) @ reached (shutdown_raises (snd w)) (registry_processors (snd w)) @
       reached (shutdown_raises (snd w)) (registry_processors (snd w))"
    by (simp add: c2(1) c(1,2,8))
  have "(\<forall>p \<in> set (registry_processors (snd w)). \<not> shutdown_raises (snd w) p) \<longrightarrow>
      shutdown_calls (fst (close (fst (close (snd w))))) =
        shutdown_calls (snd w) @ registry_processors (snd w) @ registry_processors (snd w)"
    using twice reached_all [of "registry_processors (snd w)" "shutdown_raises (snd w)"] by simp
  with twice step_wf [OF wf, of rt op] run_wf [OF wf, of rt ops] c(2) show ?thesis by blast
qed

theorem processors_never_removed_witness:
  "wf_state two_exporters_state \<and>
   registry_processors two_exporters_state = [0, 1] \<and>
   \<not> shutdown_raises two_exporters_state 0 \<and> \<not> shutdown_raises two_exporters_state 1 \<and>
   prefix [0, 1] (registry_processors (snd (step example_runtime (empty_os, two_exporters_state) Close))) \<and>
   prefix [0, 1] (registry_processors (snd (run example_runtime (empty_os, two_exporters_state)
      [Close, AddConsoleSpanExporter, Close]))) \<and>
   registry_processors (fst (close two_exporters_state)) = [0, 1] \<and>
   shutdown_calls (fst (close (fst (close two_exporters_state)))) = [0, 1, 0, 1]"
proof -
  have q: "\<forall>p \<in> set (registry_processors two_exporters_state). \<not> shutdown_raises two_exporters_state p"
    by (simp add: two_exporters_state_facts two_exporters_state_processors shutdown_raises_def)
  have q': "\<not> shutdown_raises two_exporters_state 0 \<and> \<not> shutdown_raises two_exporters_state 1"
    using q by (simp add: two_exporters_state_facts)
  from processors_never_removed [of "(empty_os, two_exporters_state)" example_runtime Close
      "[Close, AddConsoleSpanExporter, Close]"] q q' two_exporters_state_facts
  show ?thesis by simp
qed

section \<open>Properties of the file exporter\<close>

lemma walk_mono:
  "walk ns cur cs = Inr loc \<Longrightarrow>
   (\<And>l. node_at ns l = Some Dir \<Longrightarrow> node_at ns' l = Some Dir) \<Longrightarrow>
   walk ns' cur cs = Inr loc"
proof (induction cs arbitrary: cur)
  case Nil
  then show ?case by simp
next
  case (Cons c cs)
  from Cons.prems(1) have d: "node_at ns cur = Some Dir"
    by (auto split: option.splits node.splits)
  then have d': "node_at ns' cur = Some Dir" by (rule Cons.prems(2))
  from Cons.prems(1) d Cons.IH [OF _ Cons.prems(2)] d' show ?case
    by (auto split: if_splits)
qed

lemma walk_append:
  "walk ns cur (xs @ ys) = (case walk ns cur xs of Inl e \<Rightarrow> Inl e | Inr l \<Rightarrow> walk ns l ys)"
  by (induction xs arbitrary: cur) (auto split: option.splits node.splits)

lemma write_spans_effect:
  "nodes s h = Some (File c) \<Longrightarrow>
   nodes (fst (write_spans tj s h sps)) =
     (nodes s)(h \<mapsto> File (c @ take (written (space s) (length (records tj sps))) (records tj sps))) \<and>
   opened (fst (write_spans tj s h sps)) = opened s \<and>
   space (fst (write_spans tj s h sps)) =
     map_option (\<lambda>b. b - written (space s) (length (records tj sps))) (space s) \<and>
   snd (write_spans tj s h sps) =
     (if written (space s) (length (records tj sps)) = length (records tj sps) then None
      else Some NoSpaceError)"
proof (induction sps arbitrary: s c)
  case Nil
  then show ?case by (auto simp: records_def written_def split: option.splits)
next
  case (Cons sp sps)
  define d where "d = tj sp @ [CHR 0x0A]"
  define R where "R = records tj sps"
  have RR: "records tj (sp # sps) = d @ R" by (simp add: records_def d_def R_def)
  have ws: "write_spans tj s h (sp # sps) =
      (case os_write s h d of (s', Some e) \<Rightarrow> (s', Some e) | (s', None) \<Rightarrow> write_spans tj s' h sps)"
    by (simp add: d_def)
  show ?case
  proof (cases "space s")
    case None
    define s1 where "s1 = s\<lparr>nodes := (nodes s)(h \<mapsto> File (c @ d))\<rparr>"
    have w: "os_write s h d = (s1, None)"
      using Cons.prems None by (simp add: os_write_def s1_def)
    have n1: "nodes s1 h = Some (File (c @ d))" by (simp add: s1_def)
    have f1: "space s1 = None" "opened s1 = opened s" "nodes s1 = (nodes s)(h \<mapsto> File (c @ d))"
      using None by (simp_all add: s1_def)
    have e: "write_spans tj s h (sp # sps) = write_spans tj s1 h sps"
        by (simp only: ws w prod.case option.case)
    from Cons.IH [OF n1] show ?thesis
      unfolding e RR R_def [symmetric] f1 None by (auto simp: written_def fun_eq_iff)
  next
    case (Some b)
    show ?thesis
    proof (cases "length d \<le> b")
      case True
      define s1 where "s1 = s\<lparr>nodes := (nodes s)(h \<mapsto> File (c @ d)), space := Some (b - length d)\<rparr>"
      have w: "os_write s h d = (s1, None)"
        using Cons.prems Some True by (simp add: os_write_def s1_def)
      have n1: "nodes s1 h = Some (File (c @ d))" by (simp add: s1_def)
      have f1: "space s1 = Some (b - length d)" "opened s1 = opened s"
        "nodes s1 = (nodes s)(h \<mapsto> File (c @ d))"
        by (simp_all add: s1_def)
      have e: "write_spans tj s h (sp # sps) = write_spans tj s1 h sps"
        by (simp only: ws w prod.case option.case)
      define n' where "n' = min (b - length d) (length R)"
      have m: "min b (length d + length R) = length d + n'"
        using True by (auto simp: n'_def)
      have t: "take (length d + n') (d @ R) = d @ take n' R" by simp
      have sp1: "b - length d - n' = b - (length d + n')" by simp
      have eqv: "(n' = length R) = (length d + n' = length d + length R)" by simp
      from Cons.IH [OF n1] show ?thesis
        unfolding e RR R_def [symmetric] f1 Some
        by (auto simp: written_def n'_def [symmetric] m t sp1 fun_eq_iff)
    next
      case False
      define s1 where "s1 = s\<lparr>nodes := (nodes s)(h \<mapsto> File (c @ take b d)), space := Some 0\<rparr>"
      have w: "os_write s h d = (s1, Some NoSpaceError)"
        using Cons.prems Some False by (simp add: os_write_def s1_def)
      have e: "write_spans tj s h (sp # sps) = (s1, Some NoSpaceError)"
        by (simp only: ws w prod.case option.case)
      have m: "min b (length d + length R) = b" using False by auto
      have t: "take b (d @ R) = take b d" using False by simp
      have ne: "b \<noteq> length d + length R" using False by auto
      have b: "b < length d" using False by simp
      show ?thesis
        unfolding e RR R_def [symmetric] Some
        using b by (auto simp: written_def m ne s1_def fun_eq_iff)
    qed
  qed
qed

lemma open_append_effect:
  assumes "os_open_append s p = Inr (s1, h)"
  shows "walk (nodes s) [] (split_slash p) = Inr h" and "p \<noteq> []" and "h \<noteq> []"
    and "opened s1 = h # opened s" and "space s1 = space s"
    and "node_at (nodes s) h \<noteq> Some Dir"
    and "nodes s1 h = Some (File (case nodes s h of Some (File c) \<Rightarrow> c | _ \<Rightarrow> []))"
    and "\<And>l. l \<noteq> h \<Longrightarrow> nodes s1 l = nodes s l"
  using assms
  by (auto simp: os_open_append_def node_at_def split: if_splits sum.splits option.splits node.splits)

lemma split_lines_line:
  "CHR 0x0A \<notin> set x \<Longrightarrow> split_lines (x @ CHR 0x0A # rest) = x # split_lines rest"
  by (induction x) auto

lemma split_lines_records:
  "(\<forall>sp \<in> set batch. CHR 0x0A \<notin> set (tj sp)) \<Longrightarrow> split_lines (records tj batch) = map tj batch"
proof (induction batch)
  case Nil
  then show ?case by (simp add: records_def)
next
  case (Cons sp batch)
  have "records tj (sp # batch) = tj sp @ CHR 0x0A # records tj batch"
    by (simp add: records_def)
  with Cons show ?case by (simp add: split_lines_line)
qed

lemma export_open_fails:
  "os_open_append s (file_name self) = Inl e \<Longrightarrow>
   FileSpanExporter_export tj s self batch = (s, Inl e)"
  by (simp add: FileSpanExporter_export_def)

lemma export_effect:
  fixes tj :: "span \<Rightarrow> string" and batch :: "span list" and s :: os_state and h :: "string list"
  assumes o: "os_open_append s (file_name self) = Inr (s1, h)"
  defines "old \<equiv> (case nodes s h of Some (File c) \<Rightarrow> c | _ \<Rightarrow> [])"
  defines "n \<equiv> written (space s) (length (records tj batch))"
  shows "nodes (fst (FileSpanExporter_export tj s self batch)) =
           (nodes s)(h \<mapsto> File (old @ take n (records tj batch)))"
    and "opened (fst (FileSpanExporter_export tj s self batch)) = opened s"
    and "space (fst (FileSpanExporter_export tj s self batch)) = map_option (\<lambda>b. b - n) (space s)"
    and "snd (FileSpanExporter_export tj s self batch) =
           (if n = length (records tj batch) then Inr SUCCESS else Inl NoSpaceError)"
proof -
  note oe = open_append_effect [OF o]
  have n1: "nodes s1 h = Some (File old)" using oe(7) by (simp add: old_def)
  note w = write_spans_effect [OF n1, of tj batch]
  obtain s2 r where wr: "write_spans tj s1 h batch = (s2, r)" by (cases "write_spans tj s1 h batch")
  have ex: "FileSpanExporter_export tj s self batch =
      (os_close s2 h, case r of Some e \<Rightarrow> Inl e | None \<Rightarrow> Inr SUCCESS)"
    by (simp add: FileSpanExporter_export_def o wr split: option.splits)
  have s2: "nodes s2 = (nodes s1)(h \<mapsto> File (old @ take n (records tj batch)))"
    "opened s2 = opened s1" "space s2 = map_option (\<lambda>b. b - n) (space s1)"
    "r = (if n = length (records tj batch) then None else Some NoSpaceError)"
    using w by (simp_all add: wr n_def oe(5))
  have "(nodes s1)(h \<mapsto> File x) = (nodes s)(h \<mapsto> File x)" for x
    using oe(8) by (auto simp: fun_eq_iff)
  then show "nodes (fst (FileSpanExporter_export tj s self batch)) =
           (nodes s)(h \<mapsto> File (old @ take n (records tj batch)))"
    by (simp add: ex os_close_def s2(1))
  show "opened (fst (FileSpanExporter_export tj s self batch)) = opened s"
    by (simp add: ex os_close_def s2(2) oe(4))
  show "space (fst (FileSpanExporter_export tj s self batch)) = map_option (\<lambda>b. b - n) (space s)"
    by (simp add: ex os_close_def s2(3) oe(5))
  show "snd (FileSpanExporter_export tj s self batch) =
           (if n = length (records tj batch) then Inr SUCCESS else Inl NoSpaceError)"
    by (simp add: ex s2(4))
qed

lemma file_content_walk:
  "file_content s q = Some c \<longleftrightarrow>
     q \<noteq> [] \<and> (\<exists>l. walk (nodes s) [] (split_slash q) = Inr l \<and> node_at (nodes s) l = Some (File c))"
  by (auto simp: file_content_def os_stat_def split: sum.splits option.splits node.splits)

lemma written_complete:
  "(written (space s) (length R) = length R) =
     (case space s of None \<Rightarrow> True | Some b \<Rightarrow> length R \<le> b)"
  by (auto simp: written_def split: option.splits)

lemma export_keeps_content:
  assumes "file_content s q = Some c"
  shows "\<exists>c'. file_content (fst (FileSpanExporter_export tj s self batch)) q = Some c' \<and> prefix c c'"
proof (cases "os_open_append s (file_name self)")
  case (Inl e)
  with assms show ?thesis by (auto simp: export_open_fails)
next
  case (Inr sh)
  obtain s1 h where sh: "sh = (s1, h)" by (cases sh)
  note o = Inr [unfolded sh]
  note oe = open_append_effect [OF o]
  let ?s' = "fst (FileSpanExporter_export tj s self batch)"
  obtain x where nx: "nodes ?s' = (nodes s)(h \<mapsto> File ((case nodes s h of Some (File c) \<Rightarrow> c | _ \<Rightarrow> []) @ x))"
    using export_effect(1) [OF o, of tj batch] by blast
  from assms obtain l where q: "q \<noteq> []" and wl: "walk (nodes s) [] (split_slash q) = Inr l"
    and nl: "node_at (nodes s) l = Some (File c)"
    by (auto simp: file_content_walk)
  have dirs: "node_at (nodes s) k = Some Dir \<Longrightarrow> node_at (nodes ?s') k = Some Dir" for k
    using oe(6) by (auto simp: nx node_at_def)
  have wl': "walk (nodes ?s') [] (split_slash q) = Inr l" by (rule walk_mono [OF wl dirs])
  have l0: "l \<noteq> []" using nl by (auto simp: node_at_def)
  show ?thesis
  proof (cases "l = h")
    case True
    with nl l0 have "nodes s h = Some (File c)" by (simp add: node_at_def)
    then have "node_at (nodes ?s') l = Some (File (c @ x))"
      using True l0 by (simp add: nx node_at_def)
    with q wl' show ?thesis by (auto simp: file_content_walk)
  next
    case False
    then have "node_at (nodes ?s') l = Some (File c)"
      using nl l0 by (simp add: nx node_at_def)
    with q wl' show ?thesis by (auto simp: file_content_walk)
  qed
qed

lemma export_completes:
  assumes "write_completes tj s self batch"
  shows "snd (FileSpanExporter_export tj s self batch) = Inr SUCCESS"
    and "file_content (fst (FileSpanExporter_export tj s self batch)) (file_name self) =
      Some ((case file_content s (file_name self) of None \<Rightarrow> [] | Some c \<Rightarrow> c) @ records tj batch)"
proof -
  from assms obtain s1 h where o: "os_open_append s (file_name self) = Inr (s1, h)"
    by (auto simp: write_completes_def split: sum.splits)
  from assms o have fit: "written (space s) (length (records tj batch)) = length (records tj batch)"
    by (simp add: write_completes_def written_complete)
  note oe = open_append_effect [OF o]
  note ee = export_effect [OF o, of tj batch]
  let ?s' = "fst (FileSpanExporter_export tj s self batch)"
  let ?old = "case nodes s h of Some (File c) \<Rightarrow> c | _ \<Rightarrow> []"
  show "snd (FileSpanExporter_export tj s self batch) = Inr SUCCESS"
    using ee(4) fit by simp
  have nx: "nodes ?s' = (nodes s)(h \<mapsto> File (?old @ records tj batch))"
    using ee(1) fit by simp
  have dirs: "node_at (nodes s) k = Some Dir \<Longrightarrow> node_at (nodes ?s') k = Some Dir" for k
    using oe(6) by (auto simp: nx node_at_def)
  have wl': "walk (nodes ?s') [] (split_slash (file_name self)) = Inr h"
    by (rule walk_mono [OF oe(1) dirs])
  have "node_at (nodes ?s') h = Some (File (?old @ records tj batch))"
    using oe(3) by (simp add: nx node_at_def)
  with wl' oe(2) have fc: "file_content ?s' (file_name self) = Some (?old @ records tj batch)"
    by (auto simp: file_content_walk)
  have "(case file_content s (file_name self) of None \<Rightarrow> [] | Some c \<Rightarrow> c) = ?old"
  proof (cases "file_content s (file_name self)")
    case None
    have "\<not> (\<exists>c. nodes s h = Some (File c))"
    proof
      assume "\<exists>c. nodes s h = Some (File c)"
      then obtain c where "node_at (nodes s) h = Some (File c)" using oe(3) by (auto simp: node_at_def)
      with oe(1,2) have "file_content s (file_name self) = Some c" by (auto simp: file_content_walk)
      with None show False by simp
    qed
    with None oe(6) oe(3) show ?thesis
      by (auto simp: node_at_def split: option.splits node.splits)
  next
    case (Some c)
    then have "node_at (nodes s) h = Some (File c)" using oe(1) by (auto simp: file_content_walk)
    with Some oe(3) show ?thesis by (simp add: node_at_def)
  qed
  with fc show "file_content ?s' (file_name self) =
      Some ((case file_content s (file_name self) of None \<Rightarrow> [] | Some c \<Rightarrow> c) @ records tj batch)"
    by simp
qed

lemma export_fails:
  assumes "\<not> write_completes tj s self batch"
  shows "\<exists>e. snd (FileSpanExporter_export tj s self batch) = Inl e"
proof (cases "os_open_append s (file_name self)")
  case (Inl e)
  then show ?thesis by (simp add: export_open_fails)
next
  case (Inr sh)
  obtain s1 h where sh: "sh = (s1, h)" by (cases sh)
  note o = Inr [unfolded sh]
  from assms o have "written (space s) (length (records tj batch)) \<noteq> length (records tj batch)"
    by (simp add: write_completes_def written_complete)
  with export_effect(4) [OF o, of tj batch] show ?thesis by simp
qed

lemma export_opened:
  "opened (fst (FileSpanExporter_export tj s self batch)) = opened s"
proof (cases "os_open_append s (file_name self)")
  case (Inl e)
  then show ?thesis by (simp add: export_open_fails)
next
  case (Inr sh)
  obtain s1 h where sh: "sh = (s1, h)" by (cases sh)
  from export_effect(2) [OF Inr [unfolded sh]] show ?thesis .
qed

lemma dirname_bare: "CHR ''/'' \<notin> set p \<Longrightarrow> os_path_dirname p = []"
proof -
  assume "CHR ''/'' \<notin> set p"
  then have "dropWhile (\<lambda>c. c \<noteq> CHR ''/'') (rev p) = []" by (auto simp: dropWhile_eq_Nil_conv)
  then show ?thesis by (simp add: os_path_dirname_def)
qed

lemma not_exists_empty: "\<not> os_path_exists s []"
  by (simp add: os_path_exists_def os_stat_def)

lemma makedirs_empty: "os_makedirs s [] = (s, Some FileNotFoundError)"
proof -
  have "makedirs_parts [] = ([], [])" by (simp add: makedirs_parts_def os_path_split_def)
  then show ?thesis
    by (subst os_makedirs.simps) (simp add: mkdir_last_def os_mkdir_def)
qed

lemma init_bare:
  "CHR ''/'' \<notin> set fname \<Longrightarrow> FileSpanExporter_init s fname = (s, Inl FileNotFoundError)"
  by (simp add: FileSpanExporter_init_def dirname_bare not_exists_empty makedirs_empty)

lemma walk_empties:
  "\<forall>c \<in> set es. c = [] \<Longrightarrow> node_at ns cur = Some Dir \<Longrightarrow> walk ns cur es = Inr cur"
  by (induction es) auto

lemma strip_trailing:
  "xs = rev (dropWhile P (rev xs)) @ rev (takeWhile P (rev xs))"
  by (metis rev_append rev_rev_ident takeWhile_dropWhile_id)

lemma mkdir_creates:
  assumes "os_mkdir s p = Inr s'"
  shows "os_stat s' p = Inr Dir"
proof -
  define cs where "cs = rev (dropWhile (\<lambda>c. c = []) (rev (split_slash p)))"
  define es where "es = rev (takeWhile (\<lambda>c. c = []) (rev (split_slash p)))"
  have sp: "split_slash p = cs @ es" unfolding cs_def es_def by (rule strip_trailing)
  have es: "\<forall>c \<in> set es. c = []"
    unfolding es_def by (auto dest: set_takeWhileD)
  from assms have p: "p \<noteq> []" by (auto simp: os_mkdir_def split: if_splits)
  from assms p have cs: "cs \<noteq> []"
    by (auto simp: os_mkdir_def Let_def cs_def [symmetric] split: if_splits)
  from assms p cs obtain par where par: "walk (nodes s) [] (butlast cs) = Inr par"
    by (auto simp: os_mkdir_def Let_def cs_def [symmetric] split: if_splits sum.splits)
  from assms p cs par have pd: "node_at (nodes s) par = Some Dir"
    by (auto simp: os_mkdir_def Let_def cs_def [symmetric] split: if_splits option.splits node.splits)
  from assms p cs par pd have nm: "last cs \<noteq> ''.''" "last cs \<noteq> ''..''"
    by (auto simp: os_mkdir_def Let_def cs_def [symmetric] split: if_splits)
  from assms p cs par pd nm have s': "s' = s\<lparr>nodes := (nodes s)(par @ [last cs] \<mapsto> Dir)\<rparr>"
    by (auto simp: os_mkdir_def Let_def cs_def [symmetric] split: if_splits option.splits)
  have "dropWhile (\<lambda>c. c = []) (rev (split_slash p)) \<noteq> []" using cs by (simp add: cs_def)
  then have "hd (dropWhile (\<lambda>c. c = []) (rev (split_slash p))) \<noteq> []" by (rule hd_dropWhile)
  then have ne: "last cs \<noteq> []"
    using cs by (simp add: cs_def last_rev)
  let ?ns' = "(nodes s)(par @ [last cs] \<mapsto> Dir)"
  have dirs: "node_at (nodes s) k = Some Dir \<Longrightarrow> node_at ?ns' k = Some Dir" for k
    by (auto simp: node_at_def)
  have w1: "walk ?ns' [] (butlast cs) = Inr par" by (rule walk_mono [OF par dirs])
  have nd: "node_at ?ns' (par @ [last cs]) = Some Dir" by (simp add: node_at_def)
  have w2: "walk ?ns' par (last cs # es) = Inr (par @ [last cs])"
    using dirs [OF pd] nm ne walk_empties [OF es nd] by simp
  have "split_slash p = butlast cs @ last cs # es"
    using sp cs by (simp add: append_butlast_last_id [symmetric] del: append_butlast_last_id)
  then have "walk ?ns' [] (split_slash p) = Inr (par @ [last cs])"
    by (simp only: walk_append w1 w2 sum.case)
  with nd p show ?thesis by (simp add: os_stat_def s')
qed

lemma makedirs_ends_with_mkdir:
  assumes "snd (makedirs_parts name) \<noteq> ''.''" and "os_makedirs s name = (s', None)"
  shows "\<exists>sx. os_mkdir sx name = Inr s'"
proof -
  have ml: "mkdir_last sx name = (s', None) \<Longrightarrow> os_mkdir sx name = Inr s'" for sx
    by (auto simp: mkdir_last_def split: sum.splits)
  from assms(2) have "\<exists>sx. mkdir_last sx name = (s', None)"
    by (subst (asm) os_makedirs.simps)
      (auto simp: assms(1) split: if_splits prod.splits option.splits)
  with ml show ?thesis by blast
qed

lemma makedirs_creates:
  assumes "snd (makedirs_parts name) \<noteq> ''.''" and "os_makedirs s name = (s', None)"
  shows "os_path_exists s' name"
  using makedirs_ends_with_mkdir [OF assms] mkdir_creates
  by (auto simp: os_path_exists_def)

lemma init_success:
  assumes "snd (FileSpanExporter_init s fname) = Inr ex"
  shows "ex = \<lparr>file_name = fname\<rparr>" and "CHR ''/'' \<in> set fname"
    and "os_path_exists s (os_path_dirname fname) \<Longrightarrow> fst (FileSpanExporter_init s fname) = s"
    and "os_path_exists s (os_path_dirname fname) \<or> snd (makedirs_parts (os_path_dirname fname)) \<noteq> ''.'' \<Longrightarrow>
         os_path_exists (fst (FileSpanExporter_init s fname)) (os_path_dirname fname)"
proof -
  show "ex = \<lparr>file_name = fname\<rparr>"
    using assms by (auto simp: FileSpanExporter_init_def Let_def split: if_splits prod.splits option.splits)
  show "CHR ''/'' \<in> set fname"
  proof (rule ccontr)
    assume "CHR ''/'' \<notin> set fname"
    from init_bare [OF this, of s] assms show False by simp
  qed
  show e: "os_path_exists s (os_path_dirname fname) \<Longrightarrow> fst (FileSpanExporter_init s fname) = s"
    by (simp add: FileSpanExporter_init_def)
  assume h: "os_path_exists s (os_path_dirname fname) \<or> snd (makedirs_parts (os_path_dirname fname)) \<noteq> ''.''"
  show "os_path_exists (fst (FileSpanExporter_init s fname)) (os_path_dirname fname)"
  proof (cases "os_path_exists s (os_path_dirname fname)")
    case True
    then show ?thesis using e by simp
  next
    case False
    with h have t: "snd (makedirs_parts (os_path_dirname fname)) \<noteq> ''.''" by simp
    from assms False obtain s' where m: "os_makedirs s (os_path_dirname fname) = (s', None)"
      and f: "fst (FileSpanExporter_init s fname) = s'"
      by (auto simp: FileSpanExporter_init_def Let_def split: prod.splits option.splits)
    from makedirs_creates [OF t m] f show ?thesis by simp
  qed
qed

text \<open>
  Claim C1, as stated: when the write cannot complete, \<open>export\<close> returns \<open>FAILURE\<close> and no
  exception leaves it. It does not: \<open>FileSpanExporter("out/")\<close> is constructed (the
  directory \<open>out\<close> is made), and \<open>export\<close> on it raises \<open>IsADirectoryError\<close> from \<open>open\<close>.
\<close>

theorem export_returns_failure_counterexample:
  "snd (FileSpanExporter_init empty_os ''out/'') = Inr \<lparr>file_name = ''out/''\<rparr> \<and>
   \<not> write_completes example_to_json out_state \<lparr>file_name = ''out/''\<rparr> [example_span ''a''] \<and>
   snd (FileSpanExporter_export example_to_json out_state \<lparr>file_name = ''out/''\<rparr> [example_span ''a'']) =
     Inl IsADirectoryError"
  by code_simp

text \<open>
  Claim C1, amended. \<open>export\<close> never returns \<open>FAILURE\<close>. When the write cannot complete
  (\<open>open\<close> raises, or the device runs out of room), the exception leaves \<open>export\<close>; when
  \<open>open\<close> raises, the file system is as before. When the write completes, \<open>export\<close>
  returns \<open>SUCCESS\<close>.
\<close>

theorem export_propagates_write_errors:
  "snd (FileSpanExporter_export tj s self batch) \<noteq> Inr FAILURE \<and>
   (\<not> write_completes tj s self batch \<longrightarrow>
      (\<exists>e. snd (FileSpanExporter_export tj s self batch) = Inl e)) \<and>
   (write_completes tj s self batch \<longrightarrow> snd (FileSpanExporter_export tj s self batch) = Inr SUCCESS) \<and>
   (\<forall>e. os_open_append s (file_name self) = Inl e \<longrightarrow>
      FileSpanExporter_export tj s self batch = (s, Inl e))"
proof -
  have "snd (FileSpanExporter_export tj s self batch) \<noteq> Inr FAILURE"
  proof (cases "write_completes tj s self batch")
    case True
    then show ?thesis using export_completes(1) [of tj s self batch] by simp
  next
    case False
    then show ?thesis using export_fails [of tj s self batch] by auto
  qed
  then show ?thesis
    using export_fails [of tj s self batch] export_completes(1) [of tj s self batch]
      export_open_fails [of s self _ tj batch]
    by blast
qed

theorem export_propagates_write_errors_witness:
  "\<not> write_completes example_to_json full_disk_state \<lparr>file_name = ''logs/trace.jsonl''\<rparr> [example_span ''a''] \<and>
   (\<exists>e. snd (FileSpanExporter_export example_to_json full_disk_state
            \<lparr>file_name = ''logs/trace.jsonl''\<rparr> [example_span ''a'']) = Inl e) \<and>
   snd (FileSpanExporter_export example_to_json full_disk_state
            \<lparr>file_name = ''logs/trace.jsonl''\<rparr> [example_span ''a'']) \<noteq> Inr FAILURE \<and>
   write_completes example_to_json logs_state \<lparr>file_name = ''logs/trace.jsonl''\<rparr> [example_span ''a''] \<and>
   snd (FileSpanExporter_export example_to_json logs_state
            \<lparr>file_name = ''logs/trace.jsonl''\<rparr> [example_span ''a'']) = Inr SUCCESS \<and>
   os_open_append empty_os ''logs/trace.jsonl'' = Inl FileNotFoundError \<and>
   FileSpanExporter_export example_to_json empty_os \<lparr>file_name = ''logs/trace.jsonl''\<rparr> [example_span ''a''] =
     (empty_os, Inl FileNotFoundError)"
proof -
  have n: "\<not> write_completes example_to_json full_disk_state \<lparr>file_name = ''logs/trace.jsonl''\<rparr> [example_span ''a'']"
    by code_simp
  have y: "write_completes example_to_json logs_state \<lparr>file_name = ''logs/trace.jsonl''\<rparr> [example_span ''a'']"
    by code_simp
  have o: "os_open_append empty_os (file_name \<lparr>file_name = ''logs/trace.jsonl''\<rparr>) = Inl FileNotFoundError"
    by (simp add: os_open_append_def empty_os_def node_at_def)
  from export_propagates_write_errors [of example_to_json full_disk_state
      "\<lparr>file_name = ''logs/trace.jsonl''\<rparr>" "[example_span ''a'']"] n
  have 1: "\<exists>e. snd (FileSpanExporter_export example_to_json full_disk_state
            \<lparr>file_name = ''logs/trace.jsonl''\<rparr> [example_span ''a'']) = Inl e"
    "snd (FileSpanExporter_export example_to_json full_disk_state
            \<lparr>file_name = ''logs/trace.jsonl''\<rparr> [example_span ''a'']) \<noteq> Inr FAILURE"
    by blast+
  from export_propagates_write_errors [of example_to_json logs_state
      "\<lparr>file_name = ''logs/trace.jsonl''\<rparr>" "[example_span ''a'']"] y
  have 2: "snd (FileSpanExporter_export example_to_json logs_state
            \<lparr>file_name = ''logs/trace.jsonl''\<rparr> [example_span ''a'']) = Inr SUCCESS"
    by blast
  from export_propagates_write_errors [of example_to_json empty_os
      "\<lparr>file_name = ''logs/trace.jsonl''\<rparr>" "[example_span ''a'']"] o
  have 3: "FileSpanExporter_export example_to_json empty_os \<lparr>file_name = ''logs/trace.jsonl''\<rparr> [example_span ''a''] =
     (empty_os, Inl FileNotFoundError)"
    by blast
  from o have o': "os_open_append empty_os ''logs/trace.jsonl'' = Inl FileNotFoundError" by simp
  from n 1 y 2 o' 3 show ?thesis by blast
qed

text \<open>
  Claim C4. One call of \<open>export\<close> leaves no handle open, whatever happens; every file keeps
  the content it had as a prefix of what it has afterwards; when the write completes the
  call returns \<open>SUCCESS\<close> and the configured file holds its old content followed by one
  newline-terminated record per span, in batch order. Read back line by line, the
  records are the spans' serializations, one each, when no serialization contains a
  newline.
\<close>

theorem export_appends_one_record_per_span:
  "opened (fst (FileSpanExporter_export tj s self batch)) = opened s \<and>
   (\<forall>q c. file_content s q = Some c \<longrightarrow>
      (\<exists>c'. file_content (fst (FileSpanExporter_export tj s self batch)) q = Some c' \<and> prefix c c')) \<and>
   (write_completes tj s self batch \<longrightarrow>
      snd (FileSpanExporter_export tj s self batch) = Inr SUCCESS \<and>
      file_content (fst (FileSpanExporter_export tj s self batch)) (file_name self) =
        Some ((case file_content s (file_name self) of None \<Rightarrow> [] | Some c \<Rightarrow> c) @ records tj batch)) \<and>
   ((\<forall>sp \<in> set batch. CHR 0x0A \<notin> set (tj sp)) \<longrightarrow> split_lines (records tj batch) = map tj batch)"
  using export_opened [of tj s self batch] export_keeps_content [of s _ _ tj self batch]
    export_completes [of tj s self batch] split_lines_records [of batch tj]
  by blast

theorem export_appends_one_record_per_span_witness:
  "write_completes example_to_json logs_state \<lparr>file_name = ''logs/trace.jsonl''\<rparr>
     [example_span ''a'', example_span ''b''] \<and>
   snd (FileSpanExporter_export example_to_json logs_state \<lparr>file_name = ''logs/trace.jsonl''\<rparr>
     [example_span ''a'', example_span ''b'']) = Inr SUCCESS \<and>
   file_content logs_state ''logs/trace.jsonl'' = None \<and>
   file_content (fst (FileSpanExporter_export example_to_json logs_state \<lparr>file_name = ''logs/trace.jsonl''\<rparr>
     [example_span ''a'', example_span ''b''])) ''logs/trace.jsonl'' =
     Some (example_to_json (example_span ''a'') @ [CHR 0x0A] @ example_to_json (example_span ''b'') @ [CHR 0x0A]) \<and>
   opened (fst (FileSpanExporter_export example_to_json logs_state \<lparr>file_name = ''logs/trace.jsonl''\<rparr>
     [example_span ''a'', example_span ''b''])) = opened logs_state \<and>
   split_lines (records example_to_json [example_span ''a'', example_span ''b'']) =
     [example_to_json (example_span ''a''), example_to_json (example_span ''b'')]"
proof -
  let ?self = "\<lparr>file_name = ''logs/trace.jsonl''\<rparr>"
  let ?batch = "[example_span ''a'', example_span ''b'']"
  have y: "write_completes example_to_json logs_state ?self ?batch" by code_simp
  have c: "file_content logs_state ''logs/trace.jsonl'' = None" by code_simp
  have nl: "\<forall>sp \<in> set ?batch. CHR 0x0A \<notin> set (example_to_json sp)"
    by (simp add: example_to_json_def example_span_def)
  have r: "records example_to_json ?batch =
      example_to_json (example_span ''a'') @ [CHR 0x0A] @ example_to_json (example_span ''b'') @ [CHR 0x0A]"
    by (simp add: records_def)
  note t = export_appends_one_record_per_span [of example_to_json logs_state ?self ?batch]
  from t y have 1: "snd (FileSpanExporter_export example_to_json logs_state ?self ?batch) = Inr SUCCESS"
    by blast
  from t y have "file_content (fst (FileSpanExporter_export example_to_json logs_state ?self ?batch))
      (file_name ?self) =
      Some ((case file_content logs_state (file_name ?self) of None \<Rightarrow> [] | Some c \<Rightarrow> c) @
            records example_to_json ?batch)"
    by blast
  then have 2: "file_content (fst (FileSpanExporter_export example_to_json logs_state ?self ?batch))
      ''logs/trace.jsonl'' =
      Some (example_to_json (example_span ''a'') @ [CHR 0x0A] @ example_to_json (example_span ''b'') @ [CHR 0x0A])"
    by (simp add: c r)
  from t have 3: "opened (fst (FileSpanExporter_export example_to_json logs_state ?self ?batch)) =
      opened logs_state" by blast
  from t nl have 4: "split_lines (records example_to_json ?batch) = map example_to_json ?batch"
    by blast
  from y 1 c 2 3 4 show ?thesis by simp
qed

text \<open>
  Claim C9. With a file name that has no \<open>/\<close> in it, the constructor raises
  \<open>FileNotFoundError\<close> (from \<open>os.makedirs("")\<close>), and so does \<open>add_file_span_exporter\<close>, which
  registers nothing. The constructor returns only for a file name with a directory part;
  it returns at once when that directory exists, and a directory that was missing exists
  afterwards (shown for a directory whose last component is not \<open>.\<close>).
\<close>

theorem file_exporter_needs_directory:
  "(CHR ''/'' \<notin> set fname \<longrightarrow>
      FileSpanExporter_init s fname = (s, Inl FileNotFoundError) \<and>
      add_file_span_exporter (s, st) fname = ((s, st), Inl FileNotFoundError)) \<and>
   (os_path_exists s (os_path_dirname fname) \<longrightarrow>
      FileSpanExporter_init s fname = (s, Inr \<lparr>file_name = fname\<rparr>)) \<and>
   (\<forall>ex. snd (FileSpanExporter_init s fname) = Inr ex \<longrightarrow>
      CHR ''/'' \<in> set fname \<and> ex = \<lparr>file_name = fname\<rparr> \<and>
      (os_path_exists s (os_path_dirname fname) \<or>
       snd (makedirs_parts (os_path_dirname fname)) \<noteq> ''.'' \<longrightarrow>
         os_path_exists (fst (FileSpanExporter_init s fname)) (os_path_dirname fname)))"
proof (intro conjI impI allI)
  assume b: "CHR ''/'' \<notin> set fname"
  show "FileSpanExporter_init s fname = (s, Inl FileNotFoundError)" by (rule init_bare [OF b])
  then show "add_file_span_exporter (s, st) fname = ((s, st), Inl FileNotFoundError)"
    by (simp add: add_file_span_exporter_def)
next
  assume "os_path_exists s (os_path_dirname fname)"
  then show "FileSpanExporter_init s fname = (s, Inr \<lparr>file_name = fname\<rparr>)"
    by (simp add: FileSpanExporter_init_def)
next
  fix ex assume a: "snd (FileSpanExporter_init s fname) = Inr ex"
  show "CHR ''/'' \<in> set fname" by (rule init_success(2) [OF a])
  show "ex = \<lparr>file_name = fname\<rparr>" by (rule init_success(1) [OF a])
  assume "os_path_exists s (os_path_dirname fname) \<or>
       snd (makedirs_parts (os_path_dirname fname)) \<noteq> ''.''"
  then show "os_path_exists (fst (FileSpanExporter_init s fname)) (os_path_dirname fname)"
    by (rule init_success(4) [OF a])
qed

theorem file_exporter_needs_directory_witness:
  "CHR ''/'' \<notin> set ''trace.jsonl'' \<and>
   FileSpanExporter_init empty_os ''trace.jsonl'' = (empty_os, Inl FileNotFoundError) \<and>
   add_file_span_exporter (empty_os, initial_state) ''trace.jsonl'' =
     ((empty_os, initial_state), Inl FileNotFoundError) \<and>
   snd (FileSpanExporter_init empty_os ''logs/trace.jsonl'') = Inr \<lparr>file_name = ''logs/trace.jsonl''\<rparr> \<and>
   CHR ''/'' \<in> set ''logs/trace.jsonl'' \<and>
   \<not> os_path_exists empty_os ''logs'' \<and>
   os_path_exists (fst (FileSpanExporter_init empty_os ''logs/trace.jsonl'')) ''logs''"
proof -
  have b: "CHR ''/'' \<notin> set ''trace.jsonl''" by simp
  have ok: "snd (FileSpanExporter_init empty_os ''logs/trace.jsonl'') = Inr \<lparr>file_name = ''logs/trace.jsonl''\<rparr>"
    by code_simp
  have d: "os_path_dirname ''logs/trace.jsonl'' = ''logs''" by code_simp
  have t: "snd (makedirs_parts ''logs'') \<noteq> ''.''" by code_simp
  have n: "\<not> os_path_exists empty_os ''logs''" by code_simp
  from file_exporter_needs_directory [of "''trace.jsonl''" empty_os initial_state] b
  have 1: "FileSpanExporter_init empty_os ''trace.jsonl'' = (empty_os, Inl FileNotFoundError)"
    "add_file_span_exporter (empty_os, initial_state) ''trace.jsonl'' =
       ((empty_os, initial_state), Inl FileNotFoundError)"
    by blast+
  from file_exporter_needs_directory [of "''logs/trace.jsonl''" empty_os initial_state] ok t
  have 2: "CHR ''/'' \<in> set ''logs/trace.jsonl''"
    "os_path_exists (fst (FileSpanExporter_init empty_os ''logs/trace.jsonl'')) ''logs''"
    unfolding d by blast+
  from b 1 ok 2 n show ?thesis by blast
qed

end
